theory Spec2Isabelle
  imports Complex_Main "HOL-Library.Sublist"
begin

section \<open>Python values\<close>

text \<open>
  A raw Docker event is an untyped Python value, in practice what \<open>json.loads\<close> returns:
  \<open>None\<close>, a bool, an int, a float, a str, a list or a dict with string keys. A dict is an
  association list whose lookup takes the first binding of a key. A str is a list of code
  points below 256. A float is its real value: rounding, infinities and NaN are not
  modelled, but the \<open>OverflowError\<close> of \<open>float(int)\<close> is.
\<close>

datatype pyval =
    PNone
  | PBool bool
  | PInt int
  | PFloat real
  | PStr string
  | PList "pyval list"
  | PDict "(string \<times> pyval) list"

datatype pyerr = AttributeError | TypeError | ValueError | OverflowError

type_synonym pydict = "(string \<times> pyval) list"

text \<open>Truth value testing, as \<open>or\<close>, \<open>not\<close> and \<open>if\<close> apply it.\<close>

fun truthy :: "pyval \<Rightarrow> bool" where
  "truthy PNone = False"
| "truthy (PBool b) = b"
| "truthy (PInt i) = (i \<noteq> 0)"
| "truthy (PFloat f) = (f \<noteq> 0)"
| "truthy (PStr s) = (s \<noteq> [])"
| "truthy (PList xs) = (xs \<noteq> [])"
| "truthy (PDict kvs) = (kvs \<noteq> [])"

text \<open>\<open>a or b\<close>: the first operand when it is truthy, the second otherwise.\<close>

definition py_or :: "pyval \<Rightarrow> pyval \<Rightarrow> pyval" where
  "py_or a b = (if truthy a then a else b)"

text \<open>\<open>d.get(k)\<close>: \<open>None\<close> for a missing key.\<close>

definition dict_get :: "pydict \<Rightarrow> string \<Rightarrow> pyval" where
  "dict_get d k = (case map_of d k of None \<Rightarrow> PNone | Some v \<Rightarrow> v)"

subsection \<open>String methods\<close>

text \<open>The code points below 256 for which \<open>str.isspace\<close> holds.\<close>

definition py_isspace :: "char \<Rightarrow> bool" where
  "py_isspace c = ((of_char c :: nat) \<in> {9, 10, 11, 12, 13, 28, 29, 30, 31, 32, 133, 160})"

definition py_strip :: "string \<Rightarrow> string" where
  "py_strip s = rev (dropWhile py_isspace (rev (dropWhile py_isspace s)))"

definition py_lower_char :: "char \<Rightarrow> char" where
  "py_lower_char c =
     (let n = (of_char c :: nat)
      in if (65 \<le> n \<and> n \<le> 90) \<or> (192 \<le> n \<and> n \<le> 222 \<and> n \<noteq> 215)
         then char_of (n + 32) else c)"

definition py_lower :: "string \<Rightarrow> string" where
  "py_lower s = map py_lower_char s"

text \<open>\<open>v.lower()\<close> on an arbitrary value: only a str has the method.\<close>

definition lower_method :: "pyval \<Rightarrow> pyerr + string" where
  "lower_method v = (case v of PStr s \<Rightarrow> Inr (py_lower s) | _ \<Rightarrow> Inl AttributeError)"

subsection \<open>\<open>int(v)\<close> and \<open>float(v)\<close>\<close>

definition is_digit :: "char \<Rightarrow> bool" where
  "is_digit c = (48 \<le> (of_char c :: nat) \<and> (of_char c :: nat) \<le> 57)"

definition digit_val :: "char \<Rightarrow> int" where
  "digit_val c = int (of_char c) - 48"

text \<open>
  Decimal digits, single underscores allowed between two digits. The flag says whether
  the previous character was a digit.
\<close>

fun int_digits :: "int \<Rightarrow> bool \<Rightarrow> string \<Rightarrow> int option" where
  "int_digits acc prev [] = (if prev then Some acc else None)"
| "int_digits acc prev (c # cs) =
     (if is_digit c then int_digits (acc * 10 + digit_val c) True cs
      else if c = CHR ''_'' \<and> prev then int_digits acc False cs
      else None)"

text \<open>
  \<open>int(s)\<close> for a str: surrounding whitespace is dropped, then an optional sign, then
  the digits. The whitespace of \<open>int\<close> is not that of \<open>str.strip\<close>: of the code points below
  256 it leaves out the four separators 28 to 31, so that \<open>int\<close> of such a character
  followed by digits raises \<open>ValueError\<close>. (The interpreter's configurable limit on the
  number of digits is left out.)
\<close>

definition int_isspace :: "char \<Rightarrow> bool" where
  "int_isspace c = ((of_char c :: nat) \<in> {9, 10, 11, 12, 13, 32, 133, 160})"

definition int_of_str :: "string \<Rightarrow> pyerr + int" where
  "int_of_str s =
     (let body = rev (dropWhile int_isspace (rev (dropWhile int_isspace s)));
          r = (case body of
                 [] \<Rightarrow> None
               | c # cs \<Rightarrow>
                   if c = CHR ''-'' then map_option uminus (int_digits 0 False cs)
                   else if c = CHR ''+'' then int_digits 0 False cs
                   else int_digits 0 False (c # cs))
      in case r of None \<Rightarrow> Inl ValueError | Some n \<Rightarrow> Inr n)"

definition trunc :: "real \<Rightarrow> int" where
  "trunc f = (if 0 \<le> f then \<lfloor>f\<rfloor> else \<lceil>f\<rceil>)"

fun py_int :: "pyval \<Rightarrow> pyerr + int" where
  "py_int PNone = Inl TypeError"
| "py_int (PBool b) = Inr (if b then 1 else 0)"
| "py_int (PInt i) = Inr i"
| "py_int (PFloat f) = Inr (trunc f)"
| "py_int (PStr s) = int_of_str s"
| "py_int (PList xs) = Inl TypeError"
| "py_int (PDict kvs) = Inl TypeError"

text \<open>\<open>isinstance(v, (int, float))\<close>: bool is a subclass of int.\<close>

fun is_number :: "pyval \<Rightarrow> bool" where
  "is_number (PBool b) = True"
| "is_number (PInt i) = True"
| "is_number (PFloat f) = True"
| "is_number v = False"

text \<open>\<open>v > 0\<close> for a number.\<close>

fun positive :: "pyval \<Rightarrow> bool" where
  "positive (PBool b) = b"
| "positive (PInt i) = (0 < i)"
| "positive (PFloat f) = (0 < f)"
| "positive v = False"

text \<open>
  \<open>float(v)\<close> for a number. An int too large for a double raises \<open>OverflowError\<close>:
  the first such int is halfway between the largest double and \<open>2 ^ 1024\<close>.
\<close>

definition float_limit :: int where
  "float_limit = 2 ^ 1024 - 2 ^ 970"

fun py_float :: "pyval \<Rightarrow> pyerr + real" where
  "py_float (PBool b) = Inr (if b then 1 else 0)"
| "py_float (PInt i) = (if float_limit \<le> \<bar>i\<bar> then Inl OverflowError else Inr (real_of_int i))"
| "py_float (PFloat f) = Inr f"
| "py_float v = Inl TypeError"

section \<open>The normalizer (events/parser.py)\<close>

record normalized_event =
  domain :: string
  action :: pyval
  ev_id :: pyval
  name :: pyval
  ev_image :: pyval
  exit_code :: "int option"
  timestamp :: real
  attributes :: pydict
  raw :: pydict

definition ACTION_NORMALIZATION :: "(string \<times> string) list" where
  "ACTION_NORMALIZATION =
     [(''create'', ''create''),
      (''start'', ''start''),
      (''stop'', ''stop''),
      (''die'', ''die''),
      (''destroy'', ''destroy''),
      (''restart'', ''restart''),
      (''pause'', ''pause''),
      (''unpause'', ''unpause''),
      (''health_status: healthy'', ''health_healthy''),
      (''health_status: unhealthy'', ''health_unhealthy''),
      (''pull'', ''pull''),
      (''push'', ''push'')]"

text \<open>
  \<open>_to_timestamp\<close>. The first argument is what \<open>time.time()\<close> returns. The three
  \<open>float\<close> conversions are outside any \<open>try\<close>.
\<close>

definition to_timestamp :: "real \<Rightarrow> pyval \<Rightarrow> pyerr + real" where
  "to_timestamp now r =
     (case r of
        PNone \<Rightarrow> Inr now
      | PDict d \<Rightarrow>
          (let t = dict_get d ''time'' in
           if is_number t \<and> positive t then py_float t
           else
             let tnano = dict_get d ''timeNano'' in
             if is_number tnano \<and> positive tnano then
               (case py_float tnano of Inl e \<Rightarrow> Inl e | Inr f \<Rightarrow> Inr (f / 1000000000))
             else
               let t_alt = py_or (dict_get d ''timestamp'') (dict_get d ''timeStamp'') in
               if is_number t_alt \<and> positive t_alt then py_float t_alt
               else Inr now)
      | _ \<Rightarrow> Inl AttributeError)"

text \<open>
  \<open>_normalize_action\<close>. A list or a dict is unhashable, so the table lookup raises
  \<open>TypeError\<close>; any other non-str value has no \<open>strip\<close>, and the \<open>except\<close> clause
  returns it unchanged.
\<close>

definition normalize_action :: "pyval \<Rightarrow> pyerr + pyval" where
  "normalize_action raw_action =
     (if \<not> truthy raw_action then Inr PNone
      else case raw_action of
          PList xs \<Rightarrow> Inl TypeError
        | PDict kvs \<Rightarrow> Inl TypeError
        | PStr s \<Rightarrow>
            (let normalized = (case map_of ACTION_NORMALIZATION s of
                                 None \<Rightarrow> PNone | Some n \<Rightarrow> PStr n)
             in if truthy normalized then Inr normalized
                else Inr (PStr (py_lower (py_strip s))))
        | _ \<Rightarrow> Inr raw_action)"

text \<open>\<open>_safe_get_actor_attributes\<close>: an actor that is not a dict has no \<open>get\<close>.\<close>

definition safe_get_actor_attributes :: "pydict \<Rightarrow> pyerr + pydict" where
  "safe_get_actor_attributes d =
     (case py_or (dict_get d ''Actor'') (py_or (dict_get d ''actor'') (PDict [])) of
        PDict actor \<Rightarrow>
          (case py_or (dict_get actor ''Attributes'')
                  (py_or (dict_get actor ''attributes'') (PDict [])) of
             PDict attrs \<Rightarrow> Inr attrs
           | _ \<Rightarrow> Inr [])
      | _ \<Rightarrow> Inl AttributeError)"

text \<open>
  The loop over \<open>("exitCode", "exit_code", "exit")\<close>: for each key the attribute, or the
  top-level value when the attribute is \<open>None\<close>; the first value that \<open>int\<close> accepts ends
  the loop.
\<close>

fun scan_exit_code :: "pydict \<Rightarrow> pydict \<Rightarrow> string list \<Rightarrow> int option" where
  "scan_exit_code attrs d [] = None"
| "scan_exit_code attrs d (key # keys) =
     (let val = (if dict_get attrs key = PNone then dict_get d key else dict_get attrs key)
      in if val \<noteq> PNone then
           (case py_int val of Inr n \<Rightarrow> Some n | Inl e \<Rightarrow> scan_exit_code attrs d keys)
         else scan_exit_code attrs d keys)"

record container_info =
  ci_id :: pyval
  ci_name :: pyval
  ci_image :: pyval
  ci_exit_code :: "int option"
  ci_attributes :: pydict

definition extract_container_info :: "pydict \<Rightarrow> pyerr + container_info" where
  "extract_container_info d =
     (case safe_get_actor_attributes d of
        Inl e \<Rightarrow> Inl e
      | Inr attrs \<Rightarrow>
          Inr \<lparr> ci_id = py_or (dict_get d ''id'') (py_or (dict_get d ''ID'')
                         (py_or (dict_get attrs ''container'') (dict_get attrs ''id''))),
                ci_name = py_or (dict_get attrs ''name'')
                            (py_or (dict_get attrs ''container'') PNone),
                ci_image = py_or (dict_get attrs ''image'')
                             (py_or (dict_get attrs ''image.name'') PNone),
                ci_exit_code = scan_exit_code attrs d [''exitCode'', ''exit_code'', ''exit''],
                ci_attributes = attrs \<rparr>)"

text \<open>The body of the \<open>try\<close> block of \<open>parse_event\<close>.\<close>

definition build_event :: "string \<Rightarrow> pyval \<Rightarrow> real \<Rightarrow> pydict \<Rightarrow> pyerr + normalized_event" where
  "build_event dm act ts d =
     (if dm = ''container'' then
        (case extract_container_info d of
           Inl e \<Rightarrow> Inl e
         | Inr info \<Rightarrow>
             Inr \<lparr> domain = dm, action = act,
                   ev_id = py_or (ci_id info) (PStr ''<unknown>''),
                   name = ci_name info, ev_image = ci_image info,
                   exit_code = ci_exit_code info, timestamp = ts,
                   attributes = ci_attributes info, raw = d \<rparr>)
      else
        (case safe_get_actor_attributes d of
           Inl e \<Rightarrow> Inl e
         | Inr attrs \<Rightarrow>
             Inr \<lparr> domain = dm, action = act,
                   ev_id = py_or (py_or (dict_get d ''id'') (py_or (dict_get d ''ID'') PNone))
                             (PStr ''<unknown>''),
                   name = dict_get attrs ''name'', ev_image = dict_get attrs ''image'',
                   exit_code = None, timestamp = ts,
                   attributes = attrs, raw = d \<rparr>))"

text \<open>
  \<open>parse_event\<close>: \<open>Inl e\<close> is an exception that reaches the caller, \<open>Inr None\<close> is the
  returned \<open>None\<close>. Only \<open>build_event\<close> runs inside the \<open>try\<close>.
\<close>

definition parse_event :: "real \<Rightarrow> pyval \<Rightarrow> pyerr + normalized_event option" where
  "parse_event now r =
     (case r of
        PDict d \<Rightarrow>
          (case lower_method (py_or (dict_get d ''Type'')
                   (py_or (dict_get d ''type'') (PStr ''unknown''))) of
             Inl e \<Rightarrow> Inl e
           | Inr dm \<Rightarrow>
               (case normalize_action (py_or (dict_get d ''Action'')
                        (py_or (dict_get d ''action'') (dict_get d ''status''))) of
                  Inl e \<Rightarrow> Inl e
                | Inr act \<Rightarrow>
                    if \<not> truthy act then Inr None
                    else
                      (case to_timestamp now r of
                         Inl e \<Rightarrow> Inl e
                       | Inr ts \<Rightarrow>
                           (case build_event dm act ts d of
                              Inl e \<Rightarrow> Inr None
                            | Inr ne \<Rightarrow> Inr (Some ne)))))
      | _ \<Rightarrow> Inr None)"

subsection \<open>Notions used to state the normalizer's properties\<close>

definition numeric_positive :: "pyval \<Rightarrow> bool" where
  "numeric_positive v = (is_number v \<and> positive v)"

definition is_nonempty_str :: "pyval \<Rightarrow> bool" where
  "is_nonempty_str v = (case v of PStr s \<Rightarrow> s \<noteq> [] | _ \<Rightarrow> False)"

text \<open>The value of \<open>a or b or ... or dflt\<close>.\<close>

fun first_truthy :: "pyval \<Rightarrow> pyval list \<Rightarrow> pyval" where
  "first_truthy dflt [] = dflt"
| "first_truthy dflt (v # vs) = (if truthy v then v else first_truthy dflt vs)"

text \<open>The first value of a list that is not \<open>None\<close> and that \<open>int\<close> accepts.\<close>

fun first_int :: "pyval list \<Rightarrow> int option" where
  "first_int [] = None"
| "first_int (v # vs) = (case py_int v of Inr n \<Rightarrow> Some n | Inl e \<Rightarrow> first_int vs)"

text \<open>The raw action \<open>parse_event\<close> hands to \<open>_normalize_action\<close>.\<close>

definition raw_action :: "pydict \<Rightarrow> pyval" where
  "raw_action d = first_truthy (dict_get d ''status'') [dict_get d ''Action'', dict_get d ''action'']"

text \<open>
  The timestamp chain as the specification words it: rule 3 asks of \<open>timestamp\<close> or
  \<open>timeStamp\<close> only that it be numeric.
\<close>

definition spec_to_timestamp :: "real \<Rightarrow> pydict \<Rightarrow> pyerr + real" where
  "spec_to_timestamp now d =
     (if numeric_positive (dict_get d ''time'') then py_float (dict_get d ''time'')
      else if numeric_positive (dict_get d ''timeNano'') then
        (case py_float (dict_get d ''timeNano'') of
           Inl e \<Rightarrow> Inl e | Inr f \<Rightarrow> Inr (f / 1000000000))
      else if is_number (dict_get d ''timestamp'') then py_float (dict_get d ''timestamp'')
      else if is_number (dict_get d ''timeStamp'') then py_float (dict_get d ''timeStamp'')
      else Inr now)"

text \<open>
  The exit-code scan as the specification words it: the three attribute keys first, then
  the three top-level keys.
\<close>

definition spec_scan_exit_code :: "pydict \<Rightarrow> pydict \<Rightarrow> int option" where
  "spec_scan_exit_code attrs d =
     first_int (map (dict_get attrs) [''exitCode'', ''exit_code'', ''exit'']
                @ map (dict_get d) [''exitCode'', ''exit_code'', ''exit''])"

section \<open>The watcher (events/watcher.py)\<close>

text \<open>
  The loop of \<open>_run\<close> runs against a script of what its environment does: the outcome of
  each call of \<open>client.events\<close>, what each stream yields and how it ends, what the callback
  does on each event, and the moments at which another thread sets the stop flag. What the
  loop does is recorded in a trace. Durations are reals.
\<close>

record config =
  initial_backoff :: real
  backoff_factor :: real
  max_backoff :: real
  max_retries :: "int option"

text \<open>
  Exceptions by the \<open>except\<close> clause that catches them: \<open>DockerError\<close> stands for
  \<open>APIError\<close>, \<open>DockerException\<close> and \<open>OSError\<close>, \<open>OtherException\<close> for any other
  \<open>Exception\<close>, \<open>BaseOnly\<close> for a \<open>BaseException\<close> that is not an \<open>Exception\<close>
  (\<open>KeyboardInterrupt\<close>, \<open>SystemExit\<close>), which no clause catches.
\<close>

datatype exc_class = DockerError | OtherException | BaseOnly

datatype logmsg =
    OpeningStream
  | StopRequested
  | CallbackError
  | StreamClosed
  | StreamError
  | ExceededRetries
  | Reconnecting real int
  | UnexpectedError
  | WatcherStopped
  | AlreadyRunning
  | StartedInBackground
  | StartingForeground
  | Stopping
  | ThreadJoined

datatype severity = Info | Warning | Error | Critical

fun severity_of :: "logmsg \<Rightarrow> severity" where
  "severity_of StreamClosed = Warning"
| "severity_of AlreadyRunning = Warning"
| "severity_of CallbackError = Error"
| "severity_of StreamError = Error"
| "severity_of UnexpectedError = Error"
| "severity_of ExceededRetries = Critical"
| "severity_of m = Info"

datatype obs = Log logmsg | OpenStream | Callback pyval | Sleep real

datatype callback_result = Returns | Raises exc_class

datatype stream_item = Yield pyval callback_result | StopSet

datatype stream_end = EndOfStream | StreamRaises exc_class

datatype env = StopCalled | OpenRaises exc_class | OpenReturns "stream_item list" stream_end

record loop_state =
  retries :: int
  backoff :: real
  stop_event :: bool
  trace :: "obs list"

definition emit :: "obs list \<Rightarrow> loop_state \<Rightarrow> loop_state" where
  "emit os st = st\<lparr>trace := trace st @ os\<rparr>"

text \<open>
  \<open>time.sleep(d)\<close> raises \<open>ValueError\<close> for a negative duration. (It also raises
  \<open>OverflowError\<close> for a duration that does not fit the clock of the platform, some
  \<open>9.2e9\<close> seconds; durations are taken below that.)
\<close>

definition sleep :: "real \<Rightarrow> loop_state \<Rightarrow> exc_class + loop_state" where
  "sleep d st = (if d < 0 then Inl OtherException else Inr (emit [Sleep d] st))"

text \<open>
  The \<open>for\<close> loop over the stream. It ends by \<open>break\<close>, by the end of the stream, or by an
  exception: one the stream raises, or one of the callback that \<open>except Exception\<close> does not
  catch.
\<close>

datatype for_exit = ForBreak | ForEnd | ForRaise exc_class

fun consume :: "loop_state \<Rightarrow> stream_item list \<Rightarrow> stream_end \<Rightarrow> for_exit \<times> loop_state" where
  "consume st [] EndOfStream = (ForEnd, st)"
| "consume st [] (StreamRaises e) = (ForRaise e, st)"
| "consume st (StopSet # xs) fin = consume (st\<lparr>stop_event := True\<rparr>) xs fin"
| "consume st (Yield ev cb # xs) fin =
     (if stop_event st then (ForBreak, emit [Log StopRequested] st)
      else case cb of
          Returns \<Rightarrow> consume (emit [Callback ev] st) xs fin
        | Raises BaseOnly \<Rightarrow> (ForRaise BaseOnly, emit [Callback ev] st)
        | Raises e \<Rightarrow> consume (emit [Callback ev, Log CallbackError] st) xs fin)"

datatype step = Continue | Break | Propagate exc_class

text \<open>\<open>backoff = min(backoff * self.backoff_factor, self.max_backoff)\<close>\<close>

definition next_backoff :: "config \<Rightarrow> real \<Rightarrow> real" where
  "next_backoff cfg b = min (b * backoff_factor cfg) (max_backoff cfg)"

definition escalate :: "config \<Rightarrow> loop_state \<Rightarrow> loop_state" where
  "escalate cfg st = st\<lparr>backoff := next_backoff cfg (backoff st)\<rparr>"

text \<open>The two assignments after a successful open.\<close>

definition reset :: "config \<Rightarrow> loop_state \<Rightarrow> loop_state" where
  "reset cfg st = st\<lparr>retries := 0, backoff := initial_backoff cfg\<rparr>"

text \<open>The two \<open>except\<close> clauses of the outer \<open>try\<close>.\<close>

definition handle :: "config \<Rightarrow> exc_class \<Rightarrow> loop_state \<Rightarrow> step \<times> loop_state" where
  "handle cfg e st =
     (case e of
        DockerError \<Rightarrow>
          (let st1 = emit [Log StreamError] (st\<lparr>retries := retries st + 1\<rparr>) in
           if (case max_retries cfg of None \<Rightarrow> False | Some m \<Rightarrow> m < retries st1)
           then (Break, emit [Log ExceededRetries] st1)
           else
             (let st2 = emit [Log (Reconnecting (backoff st1) (retries st1))] st1 in
              case sleep (backoff st2) st2 of
                Inl x \<Rightarrow> (Propagate x, st2)
              | Inr st3 \<Rightarrow> (Continue, escalate cfg st3)))
      | OtherException \<Rightarrow>
          (let st1 = emit [Log UnexpectedError] st in
           case sleep (backoff st1) st1 of
             Inl x \<Rightarrow> (Propagate x, st1)
           | Inr st2 \<Rightarrow> (Continue, escalate cfg st2))
      | BaseOnly \<Rightarrow> (Propagate BaseOnly, st))"

text \<open>One pass through the body of the \<open>while\<close> loop.\<close>

definition attempt :: "config \<Rightarrow> loop_state \<Rightarrow> env \<Rightarrow> step \<times> loop_state" where
  "attempt cfg st c =
     (let st0 = emit [Log OpeningStream, OpenStream] st in
      case c of
        OpenRaises e \<Rightarrow> handle cfg e st0
      | OpenReturns items fin \<Rightarrow>
          (let st1 = reset cfg st0 in
           case consume st1 items fin of
             (ForRaise e, st2) \<Rightarrow> handle cfg e st2
           | (how, st2) \<Rightarrow>
               if stop_event st2 then (Break, st2)
               else
                 (let st3 = emit [Log StreamClosed] st2 in
                  case sleep (backoff st3) st3 of
                    Inl x \<Rightarrow> handle cfg x st3
                  | Inr st4 \<Rightarrow> (Continue, st4)))
      | StopCalled \<Rightarrow> (Continue, st\<lparr>stop_event := True\<rparr>))"

text \<open>
  The \<open>while\<close> loop. \<open>Waiting\<close>: the script has ended while the loop was about to open
  another stream. \<open>Raised\<close>: an exception has left \<open>_run\<close>.
\<close>

datatype outcome = Stopped | Waiting | Raised exc_class

fun while_loop :: "config \<Rightarrow> loop_state \<Rightarrow> env list \<Rightarrow> outcome \<times> loop_state" where
  "while_loop cfg st [] =
     (if stop_event st then (Stopped, emit [Log WatcherStopped] st) else (Waiting, st))"
| "while_loop cfg st (StopCalled # es) = while_loop cfg (st\<lparr>stop_event := True\<rparr>) es"
| "while_loop cfg st (c # es) =
     (if stop_event st then (Stopped, emit [Log WatcherStopped] st)
      else case attempt cfg st c of
          (Continue, st') \<Rightarrow> while_loop cfg st' es
        | (Break, st') \<Rightarrow> (Stopped, emit [Log WatcherStopped] st')
        | (Propagate x, st') \<Rightarrow> (Raised x, st'))"

text \<open>\<open>_run\<close>, given the value of the stop flag when it starts.\<close>

definition run :: "config \<Rightarrow> bool \<Rightarrow> env list \<Rightarrow> outcome \<times> loop_state" where
  "run cfg flag script =
     while_loop cfg \<lparr>retries = 0, backoff = initial_backoff cfg, stop_event = flag, trace = []\<rparr>
       script"

text \<open>The state in which \<open>_run\<close> enters its loop when the stop flag is not set.\<close>

definition init_state :: "config \<Rightarrow> loop_state" where
  "init_state cfg =
     \<lparr>retries = 0, backoff = initial_backoff cfg, stop_event = False, trace = []\<rparr>"

subsection \<open>The watcher object\<close>

text \<open>
  \<open>self._worker\<close> is \<open>None\<close>, a live thread or a thread that has ended. The thread
  started by \<open>start_in_background\<close> is run to the end of its script at once, its trace put
  before the log line of the starting thread. The argument of \<open>stop\<close> says whether a live
  worker ends within the five seconds of the \<open>join\<close>.
\<close>

datatype thread = NoThread | Alive | Ended

record watcher =
  w_config :: config
  w_stop :: bool
  w_worker :: thread
  w_trace :: "obs list"

definition start_in_background :: "watcher \<Rightarrow> env list \<Rightarrow> watcher" where
  "start_in_background w script =
     (if w_worker w = Alive then w\<lparr>w_trace := w_trace w @ [Log AlreadyRunning]\<rparr>
      else
        let (out, st) = run (w_config w) (w_stop w) script in
        w\<lparr>w_stop := stop_event st,
          w_worker := (if out = Waiting then Alive else Ended),
          w_trace := w_trace w @ trace st @ [Log StartedInBackground]\<rparr>)"

definition start_forever :: "watcher \<Rightarrow> env list \<Rightarrow> outcome \<times> watcher" where
  "start_forever w script =
     (let (out, st) = run (w_config w) (w_stop w) script in
      (out, w\<lparr>w_stop := stop_event st,
              w_trace := w_trace w @ [Log StartingForeground] @ trace st\<rparr>))"

definition stop :: "bool \<Rightarrow> watcher \<Rightarrow> watcher" where
  "stop joined w =
     (let w1 = w\<lparr>w_stop := True, w_trace := w_trace w @ [Log Stopping]\<rparr> in
      if w_worker w1 \<noteq> NoThread then
        w1\<lparr>w_worker := (if w_worker w1 = Alive \<and> \<not> joined then Alive else Ended),
           w_trace := w_trace w1 @ [Log ThreadJoined]\<rparr>
      else w1)"

datatype operation = Stop bool | StartInBackground "env list" | StartForever "env list"

fun apply_op :: "watcher \<Rightarrow> operation \<Rightarrow> watcher" where
  "apply_op w (Stop joined) = stop joined w"
| "apply_op w (StartInBackground script) = start_in_background w script"
| "apply_op w (StartForever script) = snd (start_forever w script)"

subsection \<open>Readings of a trace and of a script\<close>

text \<open>
  A run of stream items during which nobody sets the stop flag and the callback raises
  nothing but an \<open>Exception\<close>.
\<close>

fun quiet :: "stream_item list \<Rightarrow> bool" where
  "quiet [] = True"
| "quiet (StopSet # xs) = False"
| "quiet (Yield ev (Raises BaseOnly) # xs) = False"
| "quiet (Yield ev cb # xs) = quiet xs"

text \<open>What the loop does on such a run: one call of the callback per item.\<close>

fun dispatched :: "stream_item list \<Rightarrow> obs list" where
  "dispatched [] = []"
| "dispatched (StopSet # xs) = dispatched xs"
| "dispatched (Yield ev Returns # xs) = Callback ev # dispatched xs"
| "dispatched (Yield ev (Raises e) # xs) = Callback ev # Log CallbackError # dispatched xs"



fun yielded :: "stream_item list \<Rightarrow> pyval list" where
  "yielded [] = []"
| "yielded (StopSet # xs) = yielded xs"
| "yielded (Yield ev cb # xs) = ev # yielded xs"

fun sleeps :: "obs list \<Rightarrow> real list" where
  "sleeps [] = []"
| "sleeps (Sleep d # os) = d # sleeps os"
| "sleeps (x # os) = sleeps os"

fun opens :: "obs list \<Rightarrow> nat" where
  "opens [] = 0"
| "opens (OpenStream # os) = Suc (opens os)"
| "opens (x # os) = opens os"

fun callbacks :: "obs list \<Rightarrow> pyval list" where
  "callbacks [] = []"
| "callbacks (Callback ev # os) = ev # callbacks os"
| "callbacks (x # os) = callbacks os"

subsection \<open>Example inputs\<close>

text \<open>The event of the repository's parser test, with a fixed time.\<close>

definition die_event :: pydict where
  "die_event =
     [(''Type'', PStr ''container''), (''Action'', PStr ''die''),
      (''id'', PStr ''91ab3921c238''), (''time'', PInt 1700000000),
      (''Actor'', PDict [(''Attributes'', PDict
          [(''name'', PStr ''my_test_container''), (''image'', PStr ''busybox:latest''),
           (''exitCode'', PStr ''137'')])])]"

text \<open>A container event with an exit code under two different keys.\<close>

definition two_codes_event :: pydict where
  "two_codes_event =
     [(''Type'', PStr ''container''), (''Action'', PStr ''die''), (''time'', PInt 1),
      (''exitCode'', PStr ''2''),
      (''Actor'', PDict [(''Attributes'', PDict [(''exit_code'', PStr ''1'')])])]"

definition die_normalized :: normalized_event where
  "die_normalized =
     \<lparr> domain = ''container'', action = PStr ''die'', ev_id = PStr ''91ab3921c238'',
       name = PStr ''my_test_container'', ev_image = PStr ''busybox:latest'',
       exit_code = Some 137, timestamp = 1700000000,
       attributes = [(''name'', PStr ''my_test_container''),
          (''image'', PStr ''busybox:latest''), (''exitCode'', PStr ''137'')],
       raw = die_event \<rparr>"

text \<open>An event of no known domain, with a verb that is not in the table.\<close>

definition kill_event :: pydict where
  "kill_event = [(''status'', PStr '' Kill ''), (''timeNano'', PInt 3000000000)]"

definition kill_normalized :: normalized_event where
  "kill_normalized =
     \<lparr> domain = ''unknown'', action = PStr ''kill'', ev_id = PStr ''<unknown>'',
       name = PNone, ev_image = PNone, exit_code = None, timestamp = 3,
       attributes = [], raw = kill_event \<rparr>"

text \<open>An event whose action is a number.\<close>

definition numeric_action_event :: pydict where
  "numeric_action_event = [(''Action'', PInt 5)]"

text \<open>The configuration of the specification's backoff example, without a retry ceiling.\<close>

definition cfg_1_2_5 :: config where
  "cfg_1_2_5 = \<lparr>initial_backoff = 1, backoff_factor = 2, max_backoff = 5, max_retries = None\<rparr>"

text \<open>The configuration of the repository's watcher test: a ceiling of three retries.\<close>

definition cfg_test :: config where
  "cfg_test = \<lparr>initial_backoff = 1, backoff_factor = 2, max_backoff = 5, max_retries = Some 3\<rparr>"


section \<open>Properties of the normalizer\<close>

lemma numeric_positive_truthy: "numeric_positive v \<Longrightarrow> truthy v"
  by (cases v) (auto simp: numeric_positive_def)

lemma scan_exit_code_first_int:
  "scan_exit_code attrs d keys =
     first_int (map (\<lambda>k. if dict_get attrs k = PNone then dict_get d k else dict_get attrs k) keys)"
  by (induction keys) (auto simp: Let_def split: sum.splits)

lemma parse_event_SomeD:
  assumes "parse_event now r = Inr (Some ne)"
  shows "\<exists>d dm act ts. r = PDict d
     \<and> lower_method (py_or (dict_get d ''Type'')
          (py_or (dict_get d ''type'') (PStr ''unknown''))) = Inr dm
     \<and> normalize_action (raw_action d) = Inr act \<and> truthy act
     \<and> to_timestamp now r = Inr ts \<and> build_event dm act ts d = Inr ne"
  using assms
  by (auto simp: parse_event_def raw_action_def py_or_def
      split: pyval.splits sum.splits if_splits)

lemma build_event_fields:
  assumes "build_event dm act ts d = Inr ne"
  shows "domain ne = dm \<and> action ne = act \<and> timestamp ne = ts \<and> raw ne = d
     \<and> safe_get_actor_attributes d = Inr (attributes ne)"
  using assms
  by (auto simp: build_event_def extract_container_info_def split: sum.splits if_splits)

text \<open>
  C1 (fails on the code). \<open>parse_event\<close> is meant never to raise, but the \<open>lower\<close> call
  on the event type is outside the \<open>try\<close>: a raw event whose \<open>Type\<close> is the number 5
  makes it raise \<open>AttributeError\<close>.
\<close>

theorem parse_event_raises_on_non_str_type:
  "parse_event now (PDict [(''Type'', PInt 5), (''Action'', PStr ''die'')]) = Inl AttributeError"
  by (simp add: parse_event_def dict_get_def py_or_def lower_method_def)

text \<open>
  C6, as stated, fails: a numeric \<open>timestamp\<close> that is not positive is not used. With
  \<open>timestamp = -5\<close> the code returns the current time, where the chain as worded
  returns \<open>-5\<close>.
\<close>

theorem timestamp_rule3_counterexample:
  "to_timestamp 1000 (PDict [(''timestamp'', PInt (- 5))]) = Inr 1000
   \<and> spec_to_timestamp 1000 [(''timestamp'', PInt (- 5))] = Inr (- 5)"
  by (simp add: to_timestamp_def spec_to_timestamp_def dict_get_def py_or_def
      numeric_positive_def float_limit_def)

text \<open>
  C6, amended. The timestamp of a raw event is fixed by the first rule that applies:
  (1) a numeric, positive \<open>time\<close>, converted to float; (2) a numeric, positive
  \<open>timeNano\<close>, converted to float and divided by 1e9; (3) a numeric, positive
  \<open>timestamp\<close>, or, when \<open>timestamp\<close> is missing or falsy, a numeric, positive
  \<open>timeStamp\<close>, converted to float; (4) the current time. A conversion to float raises
  \<open>OverflowError\<close> on an int outside the range of a double.
\<close>

theorem to_timestamp_chain:
  "(numeric_positive (dict_get d ''time'') \<longrightarrow>
      to_timestamp now (PDict d) = py_float (dict_get d ''time''))
   \<and> (\<not> numeric_positive (dict_get d ''time'')
        \<and> numeric_positive (dict_get d ''timeNano'') \<longrightarrow>
      to_timestamp now (PDict d) =
        (case py_float (dict_get d ''timeNano'') of
           Inl e \<Rightarrow> Inl e | Inr f \<Rightarrow> Inr (f / 1000000000)))
   \<and> (\<not> numeric_positive (dict_get d ''time'')
        \<and> \<not> numeric_positive (dict_get d ''timeNano'')
        \<and> numeric_positive (dict_get d ''timestamp'') \<longrightarrow>
      to_timestamp now (PDict d) = py_float (dict_get d ''timestamp''))
   \<and> (\<not> numeric_positive (dict_get d ''time'')
        \<and> \<not> numeric_positive (dict_get d ''timeNano'')
        \<and> \<not> truthy (dict_get d ''timestamp'')
        \<and> numeric_positive (dict_get d ''timeStamp'') \<longrightarrow>
      to_timestamp now (PDict d) = py_float (dict_get d ''timeStamp''))
   \<and> (\<not> numeric_positive (dict_get d ''time'')
        \<and> \<not> numeric_positive (dict_get d ''timeNano'')
        \<and> \<not> numeric_positive (dict_get d ''timestamp'')
        \<and> (truthy (dict_get d ''timestamp'')
             \<or> \<not> numeric_positive (dict_get d ''timeStamp'')) \<longrightarrow>
      to_timestamp now (PDict d) = Inr now)"
  using numeric_positive_truthy [of "dict_get d ''timestamp''"]
  by (auto simp: to_timestamp_def Let_def py_or_def numeric_positive_def)

theorem to_timestamp_chain_witness:
  "to_timestamp 7 (PDict [(''time'', PInt 100), (''timeNano'', PInt 5000000000)]) = Inr 100
   \<and> to_timestamp 7 (PDict [(''timeNano'', PInt 5000000000)]) = Inr 5
   \<and> to_timestamp 7 (PDict [(''timeStamp'', PFloat 2)]) = Inr 2
   \<and> to_timestamp 7 (PDict [(''timestamp'', PStr ''x''), (''timeStamp'', PInt 2)]) = Inr 7"
  using to_timestamp_chain [of "[(''time'', PInt 100), (''timeNano'', PInt 5000000000)]" 7]
    to_timestamp_chain [of "[(''timeNano'', PInt 5000000000)]" 7]
    to_timestamp_chain [of "[(''timeStamp'', PFloat 2)]" 7]
    to_timestamp_chain [of "[(''timestamp'', PStr ''x''), (''timeStamp'', PInt 2)]" 7]
  by (simp add: dict_get_def numeric_positive_def float_limit_def)

lemmas parser_defs = parse_event_def dict_get_def py_or_def lower_method_def py_lower_def
  py_lower_char_def normalize_action_def ACTION_NORMALIZATION_def to_timestamp_def
  float_limit_def build_event_def extract_container_info_def safe_get_actor_attributes_def
  int_of_str_def int_isspace_def py_strip_def py_isspace_def is_digit_def digit_val_def

text \<open>
  C7, as stated, fails: the scan does not go through the three attribute keys before the
  top-level keys. Each key is looked up in the attributes and, when absent there, at the
  top level, before the next key is tried: with \<open>exit_code = "1"\<close> in the attributes and
  \<open>exitCode = "2"\<close> at the top level the code yields 2, the order as worded yields 1.
\<close>

theorem exit_code_order_counterexample:
  "parse_event 0 (PDict two_codes_event) = Inr (Some
     \<lparr> domain = ''container'', action = PStr ''die'', ev_id = PStr ''<unknown>'',
       name = PNone, ev_image = PNone, exit_code = Some 2, timestamp = 1,
       attributes = [(''exit_code'', PStr ''1'')], raw = two_codes_event \<rparr>)
   \<and> spec_scan_exit_code [(''exit_code'', PStr ''1'')] two_codes_event = Some 1"
  by (simp add: two_codes_event_def spec_scan_exit_code_def parser_defs)

text \<open>
  C7, amended. For an event of domain \<open>container\<close> that the normalizer returns: the id
  is the first truthy value among top-level \<open>id\<close>, \<open>ID\<close> and attributes \<open>container\<close>,
  \<open>id\<close>, or \<open>"<unknown>"\<close>; the name the first truthy of attributes \<open>name\<close>,
  \<open>container\<close>, or \<open>None\<close>; the image the first truthy of attributes \<open>image\<close>,
  \<open>image.name\<close>, or \<open>None\<close>; the exit code is found by going through the keys
  \<open>exitCode\<close>, \<open>exit_code\<close>, \<open>exit\<close> in this order, taking for each key the attribute
  or, when the attribute is absent, the top-level value, and stopping at the first value
  that \<open>int\<close> accepts.
\<close>

theorem container_fields:
  assumes "parse_event now r = Inr (Some ne)" and "domain ne = ''container''"
  shows "r = PDict (raw ne)
     \<and> safe_get_actor_attributes (raw ne) = Inr (attributes ne)
     \<and> ev_id ne = first_truthy (PStr ''<unknown>'')
          [dict_get (raw ne) ''id'', dict_get (raw ne) ''ID'',
           dict_get (attributes ne) ''container'', dict_get (attributes ne) ''id'']
     \<and> name ne = first_truthy PNone
          [dict_get (attributes ne) ''name'', dict_get (attributes ne) ''container'']
     \<and> ev_image ne = first_truthy PNone
          [dict_get (attributes ne) ''image'', dict_get (attributes ne) ''image.name'']
     \<and> exit_code ne = first_int
          (map (\<lambda>k. if dict_get (attributes ne) k = PNone then dict_get (raw ne) k
                     else dict_get (attributes ne) k)
             [''exitCode'', ''exit_code'', ''exit''])"
proof -
  from assms(1) obtain d dm act ts where r: "r = PDict d"
    and b: "build_event dm act ts d = Inr ne"
    using parse_event_SomeD by blast
  from build_event_fields [OF b] have f: "domain ne = dm" "raw ne = d"
    "safe_get_actor_attributes d = Inr (attributes ne)" by simp_all
  with assms(2) have dm: "dm = ''container''" by simp
  from b dm f(3) have ne: "ne = \<lparr> domain = dm, action = act,
       ev_id = py_or (py_or (dict_get d ''id'') (py_or (dict_get d ''ID'')
                 (py_or (dict_get (attributes ne) ''container'')
                    (dict_get (attributes ne) ''id''))))
                 (PStr ''<unknown>''),
       name = py_or (dict_get (attributes ne) ''name'')
                (py_or (dict_get (attributes ne) ''container'') PNone),
       ev_image = py_or (dict_get (attributes ne) ''image'')
                 (py_or (dict_get (attributes ne) ''image.name'') PNone),
       exit_code = scan_exit_code (attributes ne) d [''exitCode'', ''exit_code'', ''exit''],
       timestamp = ts, attributes = attributes ne, raw = d \<rparr>"
    by (auto simp: build_event_def extract_container_info_def split: sum.splits)
  have 1: "ev_id ne = first_truthy (PStr ''<unknown>'')
          [dict_get d ''id'', dict_get d ''ID'',
           dict_get (attributes ne) ''container'', dict_get (attributes ne) ''id'']"
    by (subst ne) (simp add: py_or_def)
  have 2: "name ne = first_truthy PNone
          [dict_get (attributes ne) ''name'', dict_get (attributes ne) ''container'']"
    by (subst ne) (simp add: py_or_def)
  have 3: "ev_image ne = first_truthy PNone
          [dict_get (attributes ne) ''image'', dict_get (attributes ne) ''image.name'']"
    by (subst ne) (simp add: py_or_def)
  have 4: "exit_code ne =
      scan_exit_code (attributes ne) d [''exitCode'', ''exit_code'', ''exit'']"
    by (subst ne) simp
  have dr: "d = raw ne" using f(2) by simp
  show ?thesis
    using r f(3) 1 2 3 4 unfolding dr scan_exit_code_first_int by simp
qed

text \<open>The event of the parser test: exit code 137, name and image from the attributes.\<close>

theorem container_fields_witness:
  "parse_event 0 (PDict die_event) = Inr (Some die_normalized)
   \<and> domain die_normalized = ''container'' \<and> action die_normalized = PStr ''die''
   \<and> exit_code die_normalized = Some 137
   \<and> name die_normalized = PStr ''my_test_container''
   \<and> ev_image die_normalized = PStr ''busybox:latest''"
proof -
  have p: "parse_event 0 (PDict die_event) = Inr (Some die_normalized)"
    by (simp add: die_event_def die_normalized_def parser_defs)
  have dm: "domain die_normalized = ''container''"
    by (simp add: die_normalized_def)
  from container_fields [OF p dm] show ?thesis
    using p by (simp add: die_normalized_def)
qed

text \<open>
  C8, as stated, fails: a raw action that is not a str and has no \<open>strip\<close> passes through
  \<open>_normalize_action\<close> unchanged, so the action of the event is the number 5, not a str.
\<close>

theorem action_not_a_string_counterexample:
  "parse_event 0 (PDict numeric_action_event) = Inr (Some
     \<lparr> domain = ''unknown'', action = PInt 5, ev_id = PStr ''<unknown>'',
       name = PNone, ev_image = PNone, exit_code = None, timestamp = 0,
       attributes = [], raw = numeric_action_event \<rparr>)
   \<and> \<not> is_nonempty_str (PInt 5)"
  by (simp add: numeric_action_event_def is_nonempty_str_def parser_defs)

lemma table_values_nonempty: "map_of ACTION_NORMALIZATION s = Some n \<Longrightarrow> n \<noteq> []"
  by (auto simp: ACTION_NORMALIZATION_def split: if_splits)

lemma normalize_action_result:
  assumes "normalize_action v = Inr act" and "truthy act"
  shows "case v of
        PStr s \<Rightarrow> is_nonempty_str act
          \<and> act = PStr (case map_of ACTION_NORMALIZATION s of
                          Some n \<Rightarrow> n | None \<Rightarrow> py_lower (py_strip s))
      | w \<Rightarrow> act = w"
  using assms
  by (cases v)
     (auto simp: normalize_action_def is_nonempty_str_def Let_def
        dest: table_values_nonempty split: if_splits option.splits)

text \<open>
  C8, amended. Whenever the normalizer returns an event, its action is truthy. When the
  raw action (the first truthy of \<open>Action\<close>, \<open>action\<close>, else \<open>status\<close>) is a str, the
  action is a non-empty str: the table's entry for a known verb, otherwise the raw action
  trimmed and lower-cased. A raw action that is not a str is the action unchanged.
\<close>

theorem action_of_event:
  assumes "parse_event now r = Inr (Some ne)"
  shows "r = PDict (raw ne) \<and> truthy (action ne)
     \<and> (case raw_action (raw ne) of
          PStr s \<Rightarrow> is_nonempty_str (action ne)
            \<and> action ne = PStr (case map_of ACTION_NORMALIZATION s of
                                  Some n \<Rightarrow> n | None \<Rightarrow> py_lower (py_strip s))
        | w \<Rightarrow> action ne = w)"
proof -
  from assms obtain d dm act ts where r: "r = PDict d"
    and n: "normalize_action (raw_action d) = Inr act" and t: "truthy act"
    and b: "build_event dm act ts d = Inr ne"
    using parse_event_SomeD by blast
  from build_event_fields [OF b] have f: "action ne = act" "d = raw ne" by simp_all
  from normalize_action_result [OF n t] r t show ?thesis
    unfolding f by simp
qed

lemma lower_kill: "py_lower (py_strip '' Kill '') = ''kill''"
  by code_simp

theorem action_of_event_witness:
  "parse_event 0 (PDict kill_event) = Inr (Some kill_normalized)
   \<and> is_nonempty_str (action kill_normalized) \<and> action kill_normalized = PStr ''kill''"
proof -
  have p: "parse_event 0 (PDict kill_event) = Inr (Some kill_normalized)"
    unfolding kill_event_def kill_normalized_def by code_simp
  from action_of_event [OF p] show ?thesis
    using p
    by (simp add: kill_normalized_def kill_event_def raw_action_def dict_get_def
        ACTION_NORMALIZATION_def lower_kill)
qed

section \<open>Properties of the watcher\<close>

lemma sleeps_append: "sleeps (xs @ ys) = sleeps xs @ sleeps ys"
  by (induction xs rule: sleeps.induct) auto

lemma opens_append: "opens (xs @ ys) = opens xs + opens ys"
  by (induction xs rule: opens.induct) auto

lemma callbacks_append: "callbacks (xs @ ys) = callbacks xs @ callbacks ys"
  by (induction xs rule: callbacks.induct) auto

lemma while_loop_stopped:
  "stop_event st \<Longrightarrow> while_loop cfg st script = (Stopped, emit [Log WatcherStopped] st)"
proof (induction script arbitrary: st)
  case Nil
  then show ?case by simp
next
  case (Cons c es)
  then show ?case by (cases c) (simp_all add: emit_def)
qed

lemma consume_quiet:
  "quiet items \<Longrightarrow> \<not> stop_event st \<Longrightarrow>
   consume st items fin =
     ((case fin of EndOfStream \<Rightarrow> ForEnd | StreamRaises e \<Rightarrow> ForRaise e),
      emit (dispatched items) st)"
proof (induction items arbitrary: st rule: quiet.induct)
  case 1
  then show ?case by (cases fin) (simp_all add: emit_def)
qed (simp_all add: emit_def)

lemma next_backoff_nonneg:
  "0 \<le> b \<Longrightarrow> 0 \<le> backoff_factor cfg \<Longrightarrow> 0 \<le> max_backoff cfg \<Longrightarrow> 0 \<le> next_backoff cfg b"
  by (simp add: next_backoff_def)

lemma funpow_next_backoff_nonneg:
  "0 \<le> b \<Longrightarrow> 0 \<le> backoff_factor cfg \<Longrightarrow> 0 \<le> max_backoff cfg \<Longrightarrow>
   0 \<le> (next_backoff cfg ^^ n) b"
  by (induction n) (simp_all add: next_backoff_nonneg)

lemma attempt_docker_error:
  assumes "\<forall>m. max_retries cfg = Some m \<longrightarrow> retries st + 1 \<le> m" and "0 \<le> backoff st"
  shows "attempt cfg st (OpenRaises DockerError) =
     (Continue, st\<lparr>retries := retries st + 1, backoff := next_backoff cfg (backoff st),
        trace := trace st @ [Log OpeningStream, OpenStream, Log StreamError,
          Log (Reconnecting (backoff st) (retries st + 1)), Sleep (backoff st)]\<rparr>)"
  using assms
  by (auto simp: attempt_def handle_def emit_def sleep_def escalate_def Let_def
      split: option.splits)

lemma attempt_docker_error_exceeded:
  assumes "max_retries cfg = Some m" and "m < retries st + 1"
  shows "attempt cfg st (OpenRaises DockerError) =
     (Break, st\<lparr>retries := retries st + 1,
        trace := trace st @ [Log OpeningStream, OpenStream, Log StreamError,
          Log ExceededRetries]\<rparr>)"
  using assms
  by (auto simp: attempt_def handle_def emit_def Let_def)


lemma backoffs_shift:
  "b # map (\<lambda>i. (f ^^ i) (f b)) [0..<n] = map (\<lambda>i. (f ^^ i) b) [0..<Suc n]"
  by (simp only: map_upt_Suc funpow_swap1 funpow.simps o_apply) simp

lemma docker_errors_run:
  assumes "\<not> stop_event st" and "0 \<le> backoff st"
    and "0 \<le> backoff_factor cfg" and "0 \<le> max_backoff cfg"
    and "\<forall>m. max_retries cfg = Some m \<longrightarrow> retries st + int n \<le> m"
  shows "\<exists>st'. while_loop cfg st (replicate n (OpenRaises DockerError) @ es) = while_loop cfg st' es
     \<and> \<not> stop_event st' \<and> retries st' = retries st + int n
     \<and> backoff st' = (next_backoff cfg ^^ n) (backoff st)
     \<and> sleeps (trace st') = sleeps (trace st) @ map (\<lambda>i. (next_backoff cfg ^^ i) (backoff st)) [0..<n]
     \<and> opens (trace st') = opens (trace st) + n
     \<and> callbacks (trace st') = callbacks (trace st)
     \<and> (Log ExceededRetries \<in> set (trace st') \<longleftrightarrow> Log ExceededRetries \<in> set (trace st))"
  using assms
proof (induction n arbitrary: st)
  case 0
  then show ?case by auto
next
  case (Suc n)
  let ?st1 = "st\<lparr>retries := retries st + 1, backoff := next_backoff cfg (backoff st),
        trace := trace st @ [Log OpeningStream, OpenStream, Log StreamError,
          Log (Reconnecting (backoff st) (retries st + 1)), Sleep (backoff st)]\<rparr>"
  from Suc.prems have a: "attempt cfg st (OpenRaises DockerError) = (Continue, ?st1)"
    by (intro attempt_docker_error) auto
  have 1: "\<not> stop_event ?st1" "0 \<le> backoff ?st1"
    "\<forall>m. max_retries cfg = Some m \<longrightarrow> retries ?st1 + int n \<le> m"
    using Suc.prems by (auto simp: next_backoff_nonneg)
  from Suc.IH [OF 1(1,2) Suc.prems(3,4) 1(3)]
  obtain st' where st': "while_loop cfg ?st1 (replicate n (OpenRaises DockerError) @ es) = while_loop cfg st' es"
    "\<not> stop_event st'" "retries st' = retries ?st1 + int n"
    "backoff st' = (next_backoff cfg ^^ n) (backoff ?st1)"
    "sleeps (trace st') = sleeps (trace ?st1) @ map (\<lambda>i. (next_backoff cfg ^^ i) (backoff ?st1)) [0..<n]"
    "opens (trace st') = opens (trace ?st1) + n"
    "callbacks (trace st') = callbacks (trace ?st1)"
    "Log ExceededRetries \<in> set (trace st') \<longleftrightarrow> Log ExceededRetries \<in> set (trace ?st1)"
    by blast
  have w: "while_loop cfg st (replicate (Suc n) (OpenRaises DockerError) @ es) = while_loop cfg st' es"
    using Suc.prems(1) a st'(1) by simp
  have s: "sleeps (trace st') = sleeps (trace st) @ map (\<lambda>i. (next_backoff cfg ^^ i) (backoff st)) [0..<Suc n]"
    using st'(5) backoffs_shift [of "backoff st" "next_backoff cfg" n]
    by (simp add: sleeps_append del: upt_Suc)
  show ?case
    using w s st'(2,3,4,6,7,8)
    by (intro exI [of _ st']) (simp add: opens_append callbacks_append funpow_swap1)
qed


lemma backoff_1_2_5: "(next_backoff cfg_1_2_5 ^^ i) 1 = min (2 ^ i) 5"
  by (induction i) (auto simp: next_backoff_def cfg_1_2_5_def min_def)

lemma attempt_reset:
  "attempt cfg (st\<lparr>retries := r, backoff := b\<rparr>) (OpenReturns items fin) =
   attempt cfg st (OpenReturns items fin)"
  by (simp add: attempt_def reset_def emit_def)

lemma attempt_stream_closed:
  assumes "quiet items" and "\<not> stop_event st" and "0 \<le> initial_backoff cfg"
  shows "attempt cfg st (OpenReturns items EndOfStream) =
     (Continue, st\<lparr>retries := 0, backoff := initial_backoff cfg,
        trace := trace st @ [Log OpeningStream, OpenStream] @ dispatched items
                 @ [Log StreamClosed, Sleep (initial_backoff cfg)]\<rparr>)"
proof -
  let ?st1 = "reset cfg (emit [Log OpeningStream, OpenStream] st)"
  have "\<not> stop_event ?st1" using assms(2) by (simp add: reset_def emit_def)
  from consume_quiet [OF assms(1) this]
  have c: "consume ?st1 items EndOfStream = (ForEnd, emit (dispatched items) ?st1)" by simp
  show ?thesis
    using assms(2,3)
    by (simp add: attempt_def Let_def c) (simp add: reset_def emit_def sleep_def)
qed

lemma attempt_stream_docker_error:
  assumes "quiet items" and "\<not> stop_event st" and "0 \<le> initial_backoff cfg"
    and "\<forall>m. max_retries cfg = Some m \<longrightarrow> 1 \<le> m"
  shows "attempt cfg st (OpenReturns items (StreamRaises DockerError)) =
     (Continue, st\<lparr>retries := 1, backoff := next_backoff cfg (initial_backoff cfg),
        trace := trace st @ [Log OpeningStream, OpenStream] @ dispatched items
                 @ [Log StreamError, Log (Reconnecting (initial_backoff cfg) 1),
                    Sleep (initial_backoff cfg)]\<rparr>)"
proof -
  let ?st1 = "reset cfg (emit [Log OpeningStream, OpenStream] st)"
  have "\<not> stop_event ?st1" using assms(2) by (simp add: reset_def emit_def)
  from consume_quiet [OF assms(1) this]
  have c: "consume ?st1 items (StreamRaises DockerError)
      = (ForRaise DockerError, emit (dispatched items) ?st1)" by simp
  show ?thesis
    using assms(2,3,4)
    by (simp add: attempt_def Let_def c)
       (auto simp: reset_def emit_def sleep_def handle_def escalate_def Let_def
          split: option.splits)
qed

lemma sleeps_dispatched: "sleeps (dispatched items) = []"
  by (induction items rule: dispatched.induct) auto


lemma callbacks_dispatched: "callbacks (dispatched items) = yielded items"
  by (induction items rule: dispatched.induct) auto

lemma while_loop_Nil_running: "\<not> stop_event st \<Longrightarrow> while_loop cfg st [] = (Waiting, st)"
  by simp

lemma while_loop_continue:
  assumes "\<not> stop_event st" and "attempt cfg st c = (Continue, st')" and "c \<noteq> StopCalled"
  shows "while_loop cfg st (c # es) = while_loop cfg st' es"
  using assms by (cases c) simp_all

lemma while_loop_break:
  assumes "\<not> stop_event st" and "attempt cfg st c = (Break, st')" and "c \<noteq> StopCalled"
  shows "while_loop cfg st (c # es) = (Stopped, emit [Log WatcherStopped] st')"
  using assms by (cases c) simp_all

lemma emit_emit: "emit b (emit a st) = emit (a @ b) st"
  by (simp add: emit_def)

lemma consume_append_quiet:
  "quiet pre \<Longrightarrow> \<not> stop_event st \<Longrightarrow>
   consume st (pre @ xs) fin = consume (emit (dispatched pre) st) xs fin"
proof (induction pre arbitrary: st rule: quiet.induct)
  case 1
  then show ?case by (simp add: emit_def)
qed (simp_all add: emit_def)

lemma consume_trace_prefix: "prefix (trace st) (trace (snd (consume st items fin)))"
proof (induction st items fin rule: consume.induct)
  case (4 st ev cb xs fin)
  show ?case
  proof (cases "stop_event st")
    case True
    then show ?thesis by (simp add: emit_def)
  next
    case False
    show ?thesis
    proof (cases cb)
      case Returns
      with False 4(1) have "prefix (trace (emit [Callback ev] st))
          (trace (snd (consume st (Yield ev cb # xs) fin)))" by simp
      then show ?thesis by (auto simp: emit_def dest: append_prefixD)
    next
      case (Raises e)
      show ?thesis
      proof (cases e)
        case DockerError
        with False Raises 4(2) have "prefix (trace (emit [Callback ev, Log CallbackError] st))
          (trace (snd (consume st (Yield ev cb # xs) fin)))" by simp
        then show ?thesis by (auto simp: emit_def dest: append_prefixD)
      next
        case OtherException
        with False Raises 4(3) have "prefix (trace (emit [Callback ev, Log CallbackError] st))
          (trace (snd (consume st (Yield ev cb # xs) fin)))" by simp
        then show ?thesis by (auto simp: emit_def dest: append_prefixD)
      next
        case BaseOnly
        with False Raises show ?thesis by (simp add: emit_def)
      qed
    qed
  qed
qed simp_all

lemma consume_yield_prefix:
  assumes "\<not> stop_event st"
  shows "prefix (trace st @ [Callback ev]) (trace (snd (consume st (Yield ev cb # xs) fin)))"
proof -
  have r: "prefix (trace st @ [Callback ev])
      (trace (snd (consume (emit [Callback ev, Log CallbackError] st) xs fin)))"
  proof (rule append_prefixD)
    show "prefix ((trace st @ [Callback ev]) @ [Log CallbackError])
      (trace (snd (consume (emit [Callback ev, Log CallbackError] st) xs fin)))"
      using consume_trace_prefix [of "emit [Callback ev, Log CallbackError] st" xs fin]
      by (simp add: emit_def)
  qed
  show ?thesis
  proof (cases cb)
    case Returns
    with assms consume_trace_prefix [of "emit [Callback ev] st" xs fin]
    show ?thesis by (simp add: emit_def)
  next
    case (Raises e)
    with assms r show ?thesis by (cases e) (simp_all add: emit_def)
  qed
qed

lemma sleep_trace_prefix: "sleep d st = Inr st' \<Longrightarrow> prefix (trace st) (trace st')"
  by (auto simp: sleep_def emit_def split: if_splits)

lemma handle_trace_prefix: "prefix (trace st) (trace (snd (handle cfg e st)))"
  by (cases e)
     (auto simp: handle_def sleep_def emit_def escalate_def Let_def split: option.splits)

lemma attempt_consume_prefix:
  "prefix (trace (snd (consume (reset cfg (emit [Log OpeningStream, OpenStream] st)) items fin)))
     (trace (snd (attempt cfg st (OpenReturns items fin))))"
proof -
  let ?st1 = "reset cfg (emit [Log OpeningStream, OpenStream] st)"
  obtain how st2 where c: "consume ?st1 items fin = (how, st2)" by (cases "consume ?st1 items fin")
  show ?thesis
  proof (cases how)
    case (ForRaise e)
    with c show ?thesis by (simp add: attempt_def Let_def handle_trace_prefix)
  next
    case ForBreak
    have "prefix (trace st2) (trace (snd (handle cfg OtherException (emit [Log StreamClosed] st2))))"
      using handle_trace_prefix [of "emit [Log StreamClosed] st2" cfg OtherException]
      by (auto simp: emit_def dest: append_prefixD)
    with c ForBreak show ?thesis
      by (auto simp: attempt_def Let_def sleep_def emit_def)
  next
    case ForEnd
    have "prefix (trace st2) (trace (snd (handle cfg OtherException (emit [Log StreamClosed] st2))))"
      using handle_trace_prefix [of "emit [Log StreamClosed] st2" cfg OtherException]
      by (auto simp: emit_def dest: append_prefixD)
    with c ForEnd show ?thesis
      by (auto simp: attempt_def Let_def sleep_def emit_def)
  qed
qed

lemma attempt_trace_prefix: "prefix (trace st) (trace (snd (attempt cfg st c)))"
proof (cases c)
  case StopCalled
  then show ?thesis by (simp add: attempt_def)
next
  case (OpenRaises e)
  with handle_trace_prefix [of "emit [Log OpeningStream, OpenStream] st" cfg e]
  show ?thesis by (auto simp: attempt_def emit_def dest: append_prefixD)
next
  case (OpenReturns items fin)
  have "prefix (trace st) (trace (reset cfg (emit [Log OpeningStream, OpenStream] st)))"
    by (simp add: reset_def emit_def)
  also have "prefix \<dots> (trace (snd (consume (reset cfg (emit [Log OpeningStream, OpenStream] st))
      items fin)))"
    by (rule consume_trace_prefix)
  also have "prefix \<dots> (trace (snd (attempt cfg st (OpenReturns items fin))))"
    by (rule attempt_consume_prefix)
  finally show ?thesis using OpenReturns by simp
qed

lemma while_loop_step:
  "c \<noteq> StopCalled \<Longrightarrow>
   while_loop cfg st (c # es) =
     (if stop_event st then (Stopped, emit [Log WatcherStopped] st)
      else case attempt cfg st c of
          (Continue, st') \<Rightarrow> while_loop cfg st' es
        | (Break, st') \<Rightarrow> (Stopped, emit [Log WatcherStopped] st')
        | (Propagate x, st') \<Rightarrow> (Raised x, st'))"
  by (cases c) simp_all

lemma while_loop_trace_prefix: "prefix (trace st) (trace (snd (while_loop cfg st script)))"
proof (induction script arbitrary: st)
  case Nil
  then show ?case by (simp add: emit_def)
next
  case (Cons c es)
  show ?case
  proof (cases "c = StopCalled")
    case True
    with Cons.IH [of "st\<lparr>stop_event := True\<rparr>"] show ?thesis by simp
  next
    case False
    note step = while_loop_step [OF False, of cfg st es]
    show ?thesis
    proof (cases "stop_event st")
      case True
      then show ?thesis by (simp add: step emit_def)
    next
      case running: False
      obtain k st' where a: "attempt cfg st c = (k, st')" by (cases "attempt cfg st c")
      have p: "prefix (trace st) (trace st')"
        using attempt_trace_prefix [of st cfg c] a by simp
      show ?thesis
      proof (cases k)
        case Continue
        with running a p Cons.IH [of st'] show ?thesis
          by (auto simp: step dest: prefix_order.trans)
      next
        case Break
        with running a p show ?thesis by (simp add: step emit_def)
      next
        case (Propagate x)
        with running a p show ?thesis by (simp add: step)
      qed
    qed
  qed
qed

lemma while_loop_attempt_prefix:
  assumes "\<not> stop_event st" and "c \<noteq> StopCalled"
  shows "prefix (trace (snd (attempt cfg st c))) (trace (snd (while_loop cfg st (c # es))))"
proof -
  obtain k st' where a: "attempt cfg st c = (k, st')" by (cases "attempt cfg st c")
  show ?thesis
  proof (cases k)
    case Continue
    with assms a while_loop_trace_prefix [of st' cfg es] show ?thesis
      by (cases c) simp_all
  next
    case Break
    with assms a show ?thesis by (cases c) (simp_all add: emit_def)
  next
    case (Propagate x)
    with assms a show ?thesis by (cases c) simp_all
  qed
qed

lemma attempt_opens_prefix:
  assumes "c \<noteq> StopCalled"
  shows "prefix (trace st @ [Log OpeningStream, OpenStream]) (trace (snd (attempt cfg st c)))"
proof (cases c)
  case StopCalled
  with assms show ?thesis by simp
next
  case (OpenRaises e)
  with handle_trace_prefix [of "emit [Log OpeningStream, OpenStream] st" cfg e]
  show ?thesis by (simp add: attempt_def emit_def)
next
  case (OpenReturns items fin)
  have "prefix (trace st @ [Log OpeningStream, OpenStream])
      (trace (reset cfg (emit [Log OpeningStream, OpenStream] st)))"
    by (simp add: reset_def emit_def)
  also have "prefix \<dots> (trace (snd (consume (reset cfg (emit [Log OpeningStream, OpenStream] st))
      items fin)))"
    by (rule consume_trace_prefix)
  also have "prefix \<dots> (trace (snd (attempt cfg st (OpenReturns items fin))))"
    by (rule attempt_consume_prefix)
  finally show ?thesis using OpenReturns by simp
qed

lemma while_loop_opens_prefix:
  assumes "\<not> stop_event st" and "c \<noteq> StopCalled"
  shows "prefix (trace st @ [Log OpeningStream, OpenStream])
     (trace (snd (while_loop cfg st (c # es))))"
proof -
  have "prefix (trace st @ [Log OpeningStream, OpenStream]) (trace (snd (attempt cfg st c)))"
    by (rule attempt_opens_prefix [OF assms(2)])
  also have "prefix \<dots> (trace (snd (while_loop cfg st (c # es))))"
    by (rule while_loop_attempt_prefix [OF assms])
  finally show ?thesis .
qed

text \<open>
  C5. When the stream ends without error and nobody has asked for a stop, the loop logs
  the closure, sleeps for the backoff then in force and goes on to the next pass of the
  loop. Neither the retry counter nor the backoff changes on this path: they keep the
  values the successful open gave them, zero and the initial backoff. Unless a stop is
  requested in the meantime, the loop then reconnects: whatever the next connection
  attempt brings, the first thing that follows the sleep in the trace is a new call of
  \<open>client.events\<close>. (A negative initial backoff would make \<open>time.sleep\<close> raise.)
\<close>

theorem stream_closed_keeps_state:
  assumes "quiet items" and "\<not> stop_event st" and "0 \<le> initial_backoff cfg"
  shows "\<exists>st1 st'.
       consume (reset cfg (emit [Log OpeningStream, OpenStream] st)) items EndOfStream
         = (ForEnd, st1)
     \<and> trace st1 = trace st @ [Log OpeningStream, OpenStream] @ dispatched items
     \<and> attempt cfg st (OpenReturns items EndOfStream) = (Continue, st')
     \<and> trace st' = trace st1 @ [Log StreamClosed, Sleep (backoff st1)]
     \<and> retries st' = retries st1 \<and> backoff st' = backoff st1
     \<and> retries st' = 0 \<and> backoff st' = initial_backoff cfg \<and> \<not> stop_event st'
     \<and> while_loop cfg st (OpenReturns items EndOfStream # es) = while_loop cfg st' es
     \<and> (\<forall>c. c \<noteq> StopCalled \<longrightarrow>
          (\<exists>t. trace (snd (while_loop cfg st (OpenReturns items EndOfStream # c # es)))
             = trace st1 @ [Log StreamClosed, Sleep (backoff st1), Log OpeningStream, OpenStream]
               @ t))"
proof -
  let ?st0 = "reset cfg (emit [Log OpeningStream, OpenStream] st)"
  let ?st1 = "emit (dispatched items) ?st0"
  let ?st' = "st\<lparr>retries := 0, backoff := initial_backoff cfg,
        trace := trace st @ [Log OpeningStream, OpenStream] @ dispatched items
                 @ [Log StreamClosed, Sleep (initial_backoff cfg)]\<rparr>"
  have "\<not> stop_event ?st0" using assms(2) by (simp add: reset_def emit_def)
  from consume_quiet [OF assms(1) this]
  have c: "consume ?st0 items EndOfStream = (ForEnd, ?st1)" by simp
  have a: "attempt cfg st (OpenReturns items EndOfStream) = (Continue, ?st')"
    by (rule attempt_stream_closed [OF assms])
  have w: "while_loop cfg st (OpenReturns items EndOfStream # es) = while_loop cfg ?st' es" for es
    by (rule while_loop_continue [OF assms(2) a]) simp
  have s': "\<not> stop_event ?st'" using assms(2) by simp
  have t': "trace ?st' = trace ?st1 @ [Log StreamClosed, Sleep (backoff ?st1)]"
    by (simp add: emit_def reset_def)
  have r: "\<exists>t. trace (snd (while_loop cfg st (OpenReturns items EndOfStream # c # es)))
             = trace ?st1 @ [Log StreamClosed, Sleep (backoff ?st1), Log OpeningStream, OpenStream]
               @ t" if "c \<noteq> StopCalled" for c
  proof -
    have "prefix (trace ?st' @ [Log OpeningStream, OpenStream])
        (trace (snd (while_loop cfg ?st' (c # es))))"
      by (rule while_loop_opens_prefix [OF s' that])
    then obtain t where
      "trace (snd (while_loop cfg ?st' (c # es))) = (trace ?st' @ [Log OpeningStream, OpenStream]) @ t"
      unfolding prefix_def by blast
    then have "trace (snd (while_loop cfg st (OpenReturns items EndOfStream # c # es)))
       = trace ?st1 @ [Log StreamClosed, Sleep (backoff ?st1), Log OpeningStream, OpenStream] @ t"
      unfolding w t' by simp
    then show ?thesis by (rule exI)
  qed
  have 1: "trace ?st1 = trace st @ [Log OpeningStream, OpenStream] @ dispatched items"
    by (simp add: emit_def reset_def)
  have 2: "retries ?st' = retries ?st1" "backoff ?st' = backoff ?st1" "retries ?st' = 0"
    "backoff ?st' = initial_backoff cfg"
    by (simp_all add: emit_def reset_def)
  show ?thesis
    apply (rule exI [of _ ?st1])
    apply (rule exI [of _ ?st'])
    apply (intro conjI)
    apply (rule c)
    apply (rule 1)
    apply (rule a)
    apply (rule t')
    apply (rule 2(1))
    apply (rule 2(2))
    apply (rule 2(3))
    apply (rule 2(4))
    apply (rule s')
    apply (rule w)
    using r apply blast
    done
qed

text \<open>
  The configuration of the watcher test, entered with two retries counted and a backoff of
  four seconds: after a stream whose only event made the handler fail, the loop sleeps one
  second, continues with no retries counted and the initial backoff, and opens the stream
  again.
\<close>

theorem stream_closed_keeps_state_witness:
  "quiet [Yield PNone (Raises OtherException)]
   \<and> \<not> stop_event (init_state cfg_test\<lparr>retries := 2, backoff := 4\<rparr>)
   \<and> 0 \<le> initial_backoff cfg_test
   \<and> OpenRaises DockerError \<noteq> StopCalled
   \<and> (\<exists>st'. attempt cfg_test (init_state cfg_test\<lparr>retries := 2, backoff := 4\<rparr>)
               (OpenReturns [Yield PNone (Raises OtherException)] EndOfStream) = (Continue, st')
         \<and> retries st' = 0 \<and> backoff st' = 1 \<and> \<not> stop_event st')
   \<and> (\<exists>t. trace (snd (while_loop cfg_test (init_state cfg_test\<lparr>retries := 2, backoff := 4\<rparr>)
               [OpenReturns [Yield PNone (Raises OtherException)] EndOfStream,
                OpenRaises DockerError]))
         = [Log OpeningStream, OpenStream, Callback PNone, Log CallbackError,
            Log StreamClosed, Sleep 1, Log OpeningStream, OpenStream] @ t)"
proof -
  have h: "quiet [Yield PNone (Raises OtherException)]"
    "\<not> stop_event (init_state cfg_test\<lparr>retries := 2, backoff := 4\<rparr>)"
    "0 \<le> initial_backoff cfg_test"
    by (simp_all add: init_state_def cfg_test_def)
  have n: "OpenRaises DockerError \<noteq> StopCalled" by simp
  from stream_closed_keeps_state [OF h, of "[]"]
  obtain st1 st' where
    c: "consume (reset cfg_test (emit [Log OpeningStream, OpenStream]
            (init_state cfg_test\<lparr>retries := 2, backoff := 4\<rparr>)))
          [Yield PNone (Raises OtherException)] EndOfStream = (ForEnd, st1)"
    and a: "attempt cfg_test (init_state cfg_test\<lparr>retries := 2, backoff := 4\<rparr>)
       (OpenReturns [Yield PNone (Raises OtherException)] EndOfStream) = (Continue, st')"
      "retries st' = 0" "backoff st' = initial_backoff cfg_test" "\<not> stop_event st'"
    and r: "\<forall>c. c \<noteq> StopCalled \<longrightarrow>
          (\<exists>t. trace (snd (while_loop cfg_test (init_state cfg_test\<lparr>retries := 2, backoff := 4\<rparr>)
                  (OpenReturns [Yield PNone (Raises OtherException)] EndOfStream # c # [])))
             = trace st1 @ [Log StreamClosed, Sleep (backoff st1), Log OpeningStream, OpenStream]
               @ t)"
    by blast
  have st1: "trace st1 = [Log OpeningStream, OpenStream, Callback PNone, Log CallbackError]"
    "backoff st1 = 1"
    using c by (auto simp: reset_def emit_def init_state_def cfg_test_def)
  have 1: "\<exists>st'. attempt cfg_test (init_state cfg_test\<lparr>retries := 2, backoff := 4\<rparr>)
               (OpenReturns [Yield PNone (Raises OtherException)] EndOfStream) = (Continue, st')
         \<and> retries st' = 0 \<and> backoff st' = 1 \<and> \<not> stop_event st'"
    using a by (intro exI [of _ st']) (simp add: cfg_test_def)
  have 2: "\<exists>t. trace (snd (while_loop cfg_test (init_state cfg_test\<lparr>retries := 2, backoff := 4\<rparr>)
               [OpenReturns [Yield PNone (Raises OtherException)] EndOfStream,
                OpenRaises DockerError]))
         = [Log OpeningStream, OpenStream, Callback PNone, Log CallbackError,
            Log StreamClosed, Sleep 1, Log OpeningStream, OpenStream] @ t"
    using r [rule_format, OF n] by (simp add: st1)
  show ?thesis using h n 1 2 by (intro conjI)
qed

lemma run_False: "run cfg False script = while_loop cfg (init_state cfg) script"
  by (simp add: run_def init_state_def)

lemma cfg_1_2_5_simps:
  "initial_backoff cfg_1_2_5 = 1" "backoff_factor cfg_1_2_5 = 2" "max_backoff cfg_1_2_5 = 5"
  "max_retries cfg_1_2_5 = None"
  by (simp_all add: cfg_1_2_5_def)

lemma sleeps_errors_1_2_5:
  "sleeps (trace (snd (run cfg_1_2_5 False (replicate n (OpenRaises DockerError)))))
     = map (\<lambda>i. min (2 ^ i) 5) [0..<n]"
proof -
  let ?st = "init_state cfg_1_2_5"
  have "\<exists>st'. while_loop cfg_1_2_5 ?st (replicate n (OpenRaises DockerError) @ [])
       = while_loop cfg_1_2_5 st' []
     \<and> \<not> stop_event st' \<and> retries st' = retries ?st + int n
     \<and> backoff st' = (next_backoff cfg_1_2_5 ^^ n) (backoff ?st)
     \<and> sleeps (trace st') = sleeps (trace ?st)
           @ map (\<lambda>i. (next_backoff cfg_1_2_5 ^^ i) (backoff ?st)) [0..<n]
     \<and> opens (trace st') = opens (trace ?st) + n
     \<and> callbacks (trace st') = callbacks (trace ?st)
     \<and> (Log ExceededRetries \<in> set (trace st') \<longleftrightarrow> Log ExceededRetries \<in> set (trace ?st))"
    by (rule docker_errors_run) (simp_all add: init_state_def cfg_1_2_5_simps)
  then obtain st' where
    w: "while_loop cfg_1_2_5 ?st (replicate n (OpenRaises DockerError)) = while_loop cfg_1_2_5 st' []"
    and s: "\<not> stop_event st'"
    and sl: "sleeps (trace st') = map (\<lambda>i. (next_backoff cfg_1_2_5 ^^ i) 1) [0..<n]"
    by (auto simp: init_state_def cfg_1_2_5_simps)
  show ?thesis
    using w s sl by (simp add: run_False backoff_1_2_5)
qed

lemma sleeps_restart_closed_1_2_5:
  assumes "quiet items"
  shows "sleeps (trace (snd (run cfg_1_2_5 False
            (replicate n (OpenRaises DockerError) @ OpenReturns items EndOfStream
               # replicate k (OpenRaises DockerError)))))
     = map (\<lambda>i. min (2 ^ i) 5) [0..<n] @ 1 # map (\<lambda>i. min (2 ^ i) 5) [0..<k]"
proof -
  let ?c = cfg_1_2_5
  let ?st = "init_state ?c"
  let ?rest = "OpenReturns items EndOfStream # replicate k (OpenRaises DockerError)"
  have "\<exists>st'. while_loop ?c ?st (replicate n (OpenRaises DockerError) @ ?rest)
       = while_loop ?c st' ?rest
     \<and> \<not> stop_event st' \<and> retries st' = retries ?st + int n
     \<and> backoff st' = (next_backoff ?c ^^ n) (backoff ?st)
     \<and> sleeps (trace st') = sleeps (trace ?st)
           @ map (\<lambda>i. (next_backoff ?c ^^ i) (backoff ?st)) [0..<n]
     \<and> opens (trace st') = opens (trace ?st) + n
     \<and> callbacks (trace st') = callbacks (trace ?st)
     \<and> (Log ExceededRetries \<in> set (trace st') \<longleftrightarrow> Log ExceededRetries \<in> set (trace ?st))"
    by (rule docker_errors_run) (simp_all add: init_state_def cfg_1_2_5_simps)
  then obtain st1 where
    w1: "while_loop ?c ?st (replicate n (OpenRaises DockerError) @ ?rest) = while_loop ?c st1 ?rest"
    and s1: "\<not> stop_event st1"
    and sl1: "sleeps (trace st1) = map (\<lambda>i. (next_backoff ?c ^^ i) 1) [0..<n]"
    by (auto simp: init_state_def cfg_1_2_5_simps)
  let ?st2 = "st1\<lparr>retries := 0, backoff := initial_backoff ?c,
        trace := trace st1 @ [Log OpeningStream, OpenStream] @ dispatched items
                 @ [Log StreamClosed, Sleep (initial_backoff ?c)]\<rparr>"
  have a: "attempt ?c st1 (OpenReturns items EndOfStream) = (Continue, ?st2)"
    by (rule attempt_stream_closed [OF assms s1]) (simp add: cfg_1_2_5_simps)
  have w2: "while_loop ?c st1 ?rest = while_loop ?c ?st2 (replicate k (OpenRaises DockerError))"
    by (rule while_loop_continue [OF s1 a]) simp
  have "\<exists>st'. while_loop ?c ?st2 (replicate k (OpenRaises DockerError) @ [])
       = while_loop ?c st' []
     \<and> \<not> stop_event st' \<and> retries st' = retries ?st2 + int k
     \<and> backoff st' = (next_backoff ?c ^^ k) (backoff ?st2)
     \<and> sleeps (trace st') = sleeps (trace ?st2)
           @ map (\<lambda>i. (next_backoff ?c ^^ i) (backoff ?st2)) [0..<k]
     \<and> opens (trace st') = opens (trace ?st2) + k
     \<and> callbacks (trace st') = callbacks (trace ?st2)
     \<and> (Log ExceededRetries \<in> set (trace st') \<longleftrightarrow> Log ExceededRetries \<in> set (trace ?st2))"
    by (rule docker_errors_run) (simp_all add: s1 cfg_1_2_5_simps)
  then obtain st3 where
    w3: "while_loop ?c ?st2 (replicate k (OpenRaises DockerError)) = while_loop ?c st3 []"
    and s3: "\<not> stop_event st3"
    and sl3: "sleeps (trace st3) = sleeps (trace ?st2)
           @ map (\<lambda>i. (next_backoff ?c ^^ i) 1) [0..<k]"
    by (auto simp: cfg_1_2_5_simps)
  have "sleeps (trace ?st2) = map (\<lambda>i. (next_backoff ?c ^^ i) 1) [0..<n] @ [1]"
    by (simp add: sleeps_append sleeps_dispatched sl1 cfg_1_2_5_simps)
  with sl3 have sl: "sleeps (trace st3) = map (\<lambda>i. min (2 ^ i) 5) [0..<n] @ 1
       # map (\<lambda>i. min (2 ^ i) 5) [0..<k]"
    by (simp add: backoff_1_2_5)
  show ?thesis
    unfolding run_False w1 w2 w3 using s3 sl by simp
qed

lemma sleeps_restart_error_1_2_5:
  assumes "quiet items"
  shows "sleeps (trace (snd (run cfg_1_2_5 False
            (replicate n (OpenRaises DockerError) @ OpenReturns items (StreamRaises DockerError)
               # replicate k (OpenRaises DockerError)))))
     = map (\<lambda>i. min (2 ^ i) 5) [0..<n] @ map (\<lambda>i. min (2 ^ i) 5) [0..<Suc k]"
proof -
  let ?c = cfg_1_2_5
  let ?st = "init_state ?c"
  let ?rest = "OpenReturns items (StreamRaises DockerError) # replicate k (OpenRaises DockerError)"
  have "\<exists>st'. while_loop ?c ?st (replicate n (OpenRaises DockerError) @ ?rest)
       = while_loop ?c st' ?rest
     \<and> \<not> stop_event st' \<and> retries st' = retries ?st + int n
     \<and> backoff st' = (next_backoff ?c ^^ n) (backoff ?st)
     \<and> sleeps (trace st') = sleeps (trace ?st)
           @ map (\<lambda>i. (next_backoff ?c ^^ i) (backoff ?st)) [0..<n]
     \<and> opens (trace st') = opens (trace ?st) + n
     \<and> callbacks (trace st') = callbacks (trace ?st)
     \<and> (Log ExceededRetries \<in> set (trace st') \<longleftrightarrow> Log ExceededRetries \<in> set (trace ?st))"
    by (rule docker_errors_run) (simp_all add: init_state_def cfg_1_2_5_simps)
  then obtain st1 where
    w1: "while_loop ?c ?st (replicate n (OpenRaises DockerError) @ ?rest) = while_loop ?c st1 ?rest"
    and s1: "\<not> stop_event st1"
    and sl1: "sleeps (trace st1) = map (\<lambda>i. (next_backoff ?c ^^ i) 1) [0..<n]"
    by (auto simp: init_state_def cfg_1_2_5_simps)
  let ?st2 = "st1\<lparr>retries := 1, backoff := next_backoff ?c (initial_backoff ?c),
        trace := trace st1 @ [Log OpeningStream, OpenStream] @ dispatched items
                 @ [Log StreamError, Log (Reconnecting (initial_backoff ?c) 1),
                    Sleep (initial_backoff ?c)]\<rparr>"
  have a: "attempt ?c st1 (OpenReturns items (StreamRaises DockerError)) = (Continue, ?st2)"
    by (rule attempt_stream_docker_error [OF assms s1]) (simp_all add: cfg_1_2_5_simps)
  have w2: "while_loop ?c st1 ?rest = while_loop ?c ?st2 (replicate k (OpenRaises DockerError))"
    by (rule while_loop_continue [OF s1 a]) simp
  have "\<exists>st'. while_loop ?c ?st2 (replicate k (OpenRaises DockerError) @ [])
       = while_loop ?c st' []
     \<and> \<not> stop_event st' \<and> retries st' = retries ?st2 + int k
     \<and> backoff st' = (next_backoff ?c ^^ k) (backoff ?st2)
     \<and> sleeps (trace st') = sleeps (trace ?st2)
           @ map (\<lambda>i. (next_backoff ?c ^^ i) (backoff ?st2)) [0..<k]
     \<and> opens (trace st') = opens (trace ?st2) + k
     \<and> callbacks (trace st') = callbacks (trace ?st2)
     \<and> (Log ExceededRetries \<in> set (trace st') \<longleftrightarrow> Log ExceededRetries \<in> set (trace ?st2))"
    by (rule docker_errors_run)
       (simp_all add: s1 cfg_1_2_5_simps next_backoff_nonneg)
  then obtain st3 where
    w3: "while_loop ?c ?st2 (replicate k (OpenRaises DockerError)) = while_loop ?c st3 []"
    and s3: "\<not> stop_event st3"
    and sl3: "sleeps (trace st3) = sleeps (trace ?st2)
           @ map (\<lambda>i. (next_backoff ?c ^^ i) (next_backoff ?c 1)) [0..<k]"
    by (auto simp: cfg_1_2_5_simps)
  have "sleeps (trace ?st2) = map (\<lambda>i. (next_backoff ?c ^^ i) 1) [0..<n] @ [1]"
    by (simp add: sleeps_append sleeps_dispatched sl1 cfg_1_2_5_simps)
  with sl3 have "sleeps (trace st3) = map (\<lambda>i. (next_backoff ?c ^^ i) 1) [0..<n]
       @ (1 # map (\<lambda>i. (next_backoff ?c ^^ i) (next_backoff ?c 1)) [0..<k])"
    by simp
  then have sl: "sleeps (trace st3) = map (\<lambda>i. min (2 ^ i) 5) [0..<n]
       @ map (\<lambda>i. min (2 ^ i) 5) [0..<Suc k]"
    unfolding backoffs_shift by (simp add: backoff_1_2_5)
  show ?thesis
    unfolding run_False w1 w2 w3 using s3 sl by simp
qed

text \<open>
  C2. After the sleep that follows a connection error the backoff becomes
  \<open>min (backoff * backoff_factor) max_backoff\<close>; a successful open sets the retry counter
  to zero and the backoff to its initial value, whatever they were before. With initial
  backoff 1, factor 2, maximum 5 and no retry ceiling, \<open>n\<close> connection errors in a row
  sleep \<open>min (2 ^ i) 5\<close> for \<open>i < n\<close>, that is 1, 2, 4, 5, 5, ..., and after a successful
  open the sequence starts at 1 again, whether the stream then closes or fails.
\<close>

theorem backoff_sequence:
  "((\<forall>m. max_retries cfg = Some m \<longrightarrow> retries st + 1 \<le> m) \<and> 0 \<le> backoff st \<longrightarrow>
      (\<exists>st'. attempt cfg st (OpenRaises DockerError) = (Continue, st')
         \<and> sleeps (trace st') = sleeps (trace st) @ [backoff st]
         \<and> backoff st' = min (backoff st * backoff_factor cfg) (max_backoff cfg)))
   \<and> attempt cfg (st\<lparr>retries := r, backoff := b\<rparr>) (OpenReturns items fin)
       = attempt cfg st (OpenReturns items fin)
   \<and> (quiet items \<and> \<not> stop_event st \<and> 0 \<le> initial_backoff cfg \<longrightarrow>
      (\<exists>st'. attempt cfg st (OpenReturns items EndOfStream) = (Continue, st')
         \<and> retries st' = 0 \<and> backoff st' = initial_backoff cfg))
   \<and> sleeps (trace (snd (run cfg_1_2_5 False (replicate n (OpenRaises DockerError)))))
       = map (\<lambda>i. min (2 ^ i) 5) [0..<n]
   \<and> (quiet items \<longrightarrow>
        sleeps (trace (snd (run cfg_1_2_5 False
            (replicate n (OpenRaises DockerError) @ OpenReturns items EndOfStream
               # replicate k (OpenRaises DockerError)))))
        = map (\<lambda>i. min (2 ^ i) 5) [0..<n] @ 1 # map (\<lambda>i. min (2 ^ i) 5) [0..<k])
   \<and> (quiet items \<longrightarrow>
        sleeps (trace (snd (run cfg_1_2_5 False
            (replicate n (OpenRaises DockerError)
               @ OpenReturns items (StreamRaises DockerError)
               # replicate k (OpenRaises DockerError)))))
        = map (\<lambda>i. min (2 ^ i) 5) [0..<n] @ map (\<lambda>i. min (2 ^ i) 5) [0..<Suc k])"
proof -
  have 1: "(\<forall>m. max_retries cfg = Some m \<longrightarrow> retries st + 1 \<le> m) \<and> 0 \<le> backoff st \<longrightarrow>
      (\<exists>st'. attempt cfg st (OpenRaises DockerError) = (Continue, st')
         \<and> sleeps (trace st') = sleeps (trace st) @ [backoff st]
         \<and> backoff st' = min (backoff st * backoff_factor cfg) (max_backoff cfg))"
    by (auto simp: attempt_docker_error sleeps_append next_backoff_def)
  have 3: "quiet items \<and> \<not> stop_event st \<and> 0 \<le> initial_backoff cfg \<longrightarrow>
      (\<exists>st'. attempt cfg st (OpenReturns items EndOfStream) = (Continue, st')
         \<and> retries st' = 0 \<and> backoff st' = initial_backoff cfg)"
    by (auto simp: attempt_stream_closed)
  show ?thesis
    using 1 3 attempt_reset [where cfg = cfg and st = st and r = r and b = b and items = items and fin = fin] sleeps_errors_1_2_5 [of n]
      sleeps_restart_closed_1_2_5 [of items n k] sleeps_restart_error_1_2_5 [of items n k]
    by blast
qed

text \<open>Six errors in a row; three errors, a successful connection, two more errors.\<close>

theorem backoff_sequence_witness:
  "sleeps (trace (snd (run cfg_1_2_5 False (replicate 6 (OpenRaises DockerError)))))
     = [1, 2, 4, 5, 5, 5]
   \<and> sleeps (trace (snd (run cfg_1_2_5 False
         (replicate 3 (OpenRaises DockerError)
            @ OpenReturns [Yield PNone Returns] EndOfStream
            # replicate 2 (OpenRaises DockerError)))))
     = [1, 2, 4, 1, 1, 2]
   \<and> sleeps (trace (snd (run cfg_1_2_5 False
         (replicate 3 (OpenRaises DockerError)
            @ OpenReturns [Yield PNone Returns] (StreamRaises DockerError)
            # replicate 2 (OpenRaises DockerError)))))
     = [1, 2, 4, 1, 2, 4]
   \<and> (\<exists>st'. attempt cfg_1_2_5 (init_state cfg_1_2_5) (OpenRaises DockerError) = (Continue, st')
         \<and> sleeps (trace st') = [1] \<and> backoff st' = 2)
   \<and> (\<exists>st'. attempt cfg_1_2_5 (init_state cfg_1_2_5\<lparr>retries := 7, backoff := 5\<rparr>)
               (OpenReturns [Yield PNone Returns] EndOfStream) = (Continue, st')
         \<and> retries st' = 0 \<and> backoff st' = 1)"
proof -
  have u: "[0..<6] = [0, 1, 2, 3, 4, 5]" "[0..<3] = [0, 1, 2]" "[0..<2] = [0, 1]"
    by (simp_all add: upt_rec)
  have q: "quiet [Yield PNone Returns]" by simp
  note a = backoff_sequence [where cfg = cfg_1_2_5 and st = "init_state cfg_1_2_5"
      and r = 7 and b = 5 and items = "[Yield PNone Returns]" and fin = EndOfStream
      and n = 6 and k = 2]
  note b = backoff_sequence [where cfg = cfg_1_2_5 and st = "init_state cfg_1_2_5"
      and r = 7 and b = 5 and items = "[Yield PNone Returns]" and fin = EndOfStream
      and n = 3 and k = 2]
  have 1: "sleeps (trace (snd (run cfg_1_2_5 False (replicate 6 (OpenRaises DockerError)))))
     = [1, 2, 4, 5, 5, 5]"
    using a by (simp add: u)
  have 2: "sleeps (trace (snd (run cfg_1_2_5 False
         (replicate 3 (OpenRaises DockerError)
            @ OpenReturns [Yield PNone Returns] EndOfStream
            # replicate 2 (OpenRaises DockerError)))))
     = [1, 2, 4, 1, 1, 2]"
    using b q by (simp add: u)
  have 3: "sleeps (trace (snd (run cfg_1_2_5 False
         (replicate 3 (OpenRaises DockerError)
            @ OpenReturns [Yield PNone Returns] (StreamRaises DockerError)
            # replicate 2 (OpenRaises DockerError)))))
     = [1, 2, 4, 1, 2, 4]"
    using b q by (simp add: u)
  have 4: "\<exists>st'. attempt cfg_1_2_5 (init_state cfg_1_2_5) (OpenRaises DockerError) = (Continue, st')
         \<and> sleeps (trace st') = [1] \<and> backoff st' = 2"
    using a by (simp add: init_state_def cfg_1_2_5_simps)
  have 5: "\<exists>st'. attempt cfg_1_2_5 (init_state cfg_1_2_5\<lparr>retries := 7, backoff := 5\<rparr>)
               (OpenReturns [Yield PNone Returns] EndOfStream) = (Continue, st')
         \<and> retries st' = 0 \<and> backoff st' = 1"
    using a q by (simp add: init_state_def cfg_1_2_5_simps)
  show ?thesis using 1 2 3 4 5 by blast
qed

lemma init_state_simps:
  "retries (init_state cfg) = 0" "backoff (init_state cfg) = initial_backoff cfg"
  "stop_event (init_state cfg) = False" "trace (init_state cfg) = []"
  by (simp_all add: init_state_def)

lemma docker_errors_from_init:
  assumes "0 \<le> initial_backoff cfg" and "0 \<le> backoff_factor cfg" and "0 \<le> max_backoff cfg"
    and "\<forall>c. max_retries cfg = Some c \<longrightarrow> int n \<le> c"
  shows "\<exists>st'. while_loop cfg (init_state cfg) (replicate n (OpenRaises DockerError) @ es)
         = while_loop cfg st' es
     \<and> \<not> stop_event st' \<and> retries st' = int n
     \<and> sleeps (trace st') = map (\<lambda>i. (next_backoff cfg ^^ i) (initial_backoff cfg)) [0..<n]
     \<and> opens (trace st') = n
     \<and> Log ExceededRetries \<notin> set (trace st')"
proof -
  let ?st = "init_state cfg"
  have "\<exists>st'. while_loop cfg ?st (replicate n (OpenRaises DockerError) @ es) = while_loop cfg st' es
     \<and> \<not> stop_event st' \<and> retries st' = retries ?st + int n
     \<and> backoff st' = (next_backoff cfg ^^ n) (backoff ?st)
     \<and> sleeps (trace st') = sleeps (trace ?st)
           @ map (\<lambda>i. (next_backoff cfg ^^ i) (backoff ?st)) [0..<n]
     \<and> opens (trace st') = opens (trace ?st) + n
     \<and> callbacks (trace st') = callbacks (trace ?st)
     \<and> (Log ExceededRetries \<in> set (trace st') \<longleftrightarrow> Log ExceededRetries \<in> set (trace ?st))"
    by (rule docker_errors_run) (simp_all add: init_state_simps assms)
  then obtain st' where
    "while_loop cfg ?st (replicate n (OpenRaises DockerError) @ es) = while_loop cfg st' es"
    "\<not> stop_event st'" "retries st' = retries ?st + int n"
    "sleeps (trace st') = sleeps (trace ?st)
           @ map (\<lambda>i. (next_backoff cfg ^^ i) (backoff ?st)) [0..<n]"
    "opens (trace st') = opens (trace ?st) + n"
    "Log ExceededRetries \<in> set (trace st') \<longleftrightarrow> Log ExceededRetries \<in> set (trace ?st)"
    by blast
  then show ?thesis
    unfolding init_state_simps by (intro exI [of _ st']) simp
qed

lemma retry_ceiling_general:
  assumes "max_retries cfg = Some (int m)" and "0 \<le> initial_backoff cfg"
    and "0 \<le> backoff_factor cfg" and "0 \<le> max_backoff cfg"
  shows "\<exists>st' t. run cfg False (replicate (Suc m) (OpenRaises DockerError) @ rest) = (Stopped, st')
     \<and> retries st' = int (Suc m) \<and> opens (trace st') = Suc m \<and> \<not> stop_event st'
     \<and> trace st' = t @ [Log StreamError, Log ExceededRetries, Log WatcherStopped]
     \<and> Log ExceededRetries \<notin> set t
     \<and> sleeps (trace st') = map (\<lambda>i. (next_backoff cfg ^^ i) (initial_backoff cfg)) [0..<m]"
proof -
  let ?st = "init_state cfg"
  let ?E = "OpenRaises DockerError"
  let ?rest = "?E # rest"
  have c: "\<forall>c. max_retries cfg = Some c \<longrightarrow> int m \<le> c"
    by (simp add: assms(1))
  from docker_errors_from_init [OF assms(2,3,4) c, of ?rest]
  obtain st1 where
    w1: "while_loop cfg ?st (replicate m ?E @ ?rest) = while_loop cfg st1 ?rest"
    and s1: "\<not> stop_event st1" and r1: "retries st1 = int m"
    and sl1: "sleeps (trace st1) = map (\<lambda>i. (next_backoff cfg ^^ i) (initial_backoff cfg)) [0..<m]"
    and o1: "opens (trace st1) = m"
    and x1: "Log ExceededRetries \<notin> set (trace st1)"
    by blast
  let ?st2 = "st1\<lparr>retries := retries st1 + 1,
        trace := trace st1 @ [Log OpeningStream, OpenStream, Log StreamError,
          Log ExceededRetries]\<rparr>"
  have a: "attempt cfg st1 ?E = (Break, ?st2)"
    by (rule attempt_docker_error_exceeded [OF assms(1)]) (simp add: r1)
  have w2: "while_loop cfg st1 ?rest = (Stopped, emit [Log WatcherStopped] ?st2)"
    by (rule while_loop_break [OF s1 a]) simp
  have r: "replicate (Suc m) ?E @ rest = replicate m ?E @ ?rest"
    by (simp add: replicate_app_Cons_same)
  show ?thesis
    apply (rule exI [of _ "emit [Log WatcherStopped] ?st2"])
    apply (rule exI [of _ "trace st1 @ [Log OpeningStream, OpenStream]"])
    unfolding run_False r w1 w2
    using s1 r1 sl1 o1 x1
    by (simp add: emit_def sleeps_append opens_append)
qed

lemma below_ceiling_general:
  assumes "max_retries cfg = Some (int m)" and "0 \<le> initial_backoff cfg"
    and "0 \<le> backoff_factor cfg" and "0 \<le> max_backoff cfg" and "k \<le> m"
  shows "\<exists>st'. run cfg False (replicate k (OpenRaises DockerError)) = (Waiting, st')
     \<and> retries st' = int k \<and> opens (trace st') = k
     \<and> Log ExceededRetries \<notin> set (trace st')"
proof -
  let ?st = "init_state cfg"
  let ?E = "OpenRaises DockerError"
  have c: "\<forall>c. max_retries cfg = Some c \<longrightarrow> int k \<le> c"
    using assms(1,5) by simp
  from docker_errors_from_init [OF assms(2,3,4) c, of "[]"]
  obtain st1 where
    w1: "while_loop cfg ?st (replicate k ?E @ []) = while_loop cfg st1 []"
    and s1: "\<not> stop_event st1" and r1: "retries st1 = int k"
    and o1: "opens (trace st1) = k"
    and x1: "Log ExceededRetries \<notin> set (trace st1)"
    by blast
  have w: "run cfg False (replicate k ?E) = (Waiting, st1)"
    using w1 s1 by (simp add: run_False)
  show ?thesis
    using w r1 o1 x1 by (intro exI [of _ st1]) simp
qed

text \<open>
  C3. With a ceiling of three retries and connection attempts that keep failing, the
  retry counter goes up by one with each failure; the first three failures are followed
  by a new attempt, the fourth makes the loop log the critical message and stop: the
  stream has been opened four times, and nothing that the environment would do next is
  consulted. (The backoffs must not be negative, or \<open>time.sleep\<close> raises.)
\<close>

theorem retry_ceiling_three:
  assumes "max_retries cfg = Some 3" and "0 \<le> initial_backoff cfg"
    and "0 \<le> backoff_factor cfg" and "0 \<le> max_backoff cfg"
  shows "(\<forall>k \<le> 3. \<exists>st'. run cfg False (replicate k (OpenRaises DockerError)) = (Waiting, st')
            \<and> retries st' = int k \<and> opens (trace st') = k
            \<and> Log ExceededRetries \<notin> set (trace st'))
     \<and> (\<exists>st' t. run cfg False (replicate 4 (OpenRaises DockerError) @ rest) = (Stopped, st')
            \<and> retries st' = 4 \<and> opens (trace st') = 4 \<and> \<not> stop_event st'
            \<and> trace st' = t @ [Log StreamError, Log ExceededRetries, Log WatcherStopped]
            \<and> Log ExceededRetries \<notin> set t
            \<and> severity_of ExceededRetries = Critical)"
proof -
  have m: "max_retries cfg = Some (int 3)" using assms(1) by simp
  have 1: "\<forall>k \<le> 3. \<exists>st'. run cfg False (replicate k (OpenRaises DockerError)) = (Waiting, st')
            \<and> retries st' = int k \<and> opens (trace st') = k
            \<and> Log ExceededRetries \<notin> set (trace st')"
    using below_ceiling_general [OF m assms(2,3,4)] by blast
  have e: "replicate 4 (OpenRaises DockerError) = replicate (Suc 3) (OpenRaises DockerError)"
    by (simp add: eval_nat_numeral)
  from retry_ceiling_general [OF m assms(2,3,4), of rest]
  obtain st' t where
    "run cfg False (replicate (Suc 3) (OpenRaises DockerError) @ rest) = (Stopped, st')"
    "retries st' = int (Suc 3)" "opens (trace st') = Suc 3" "\<not> stop_event st'"
    "trace st' = t @ [Log StreamError, Log ExceededRetries, Log WatcherStopped]"
    "Log ExceededRetries \<notin> set t"
    by blast
  then have 2: "\<exists>st' t. run cfg False (replicate 4 (OpenRaises DockerError) @ rest) = (Stopped, st')
            \<and> retries st' = 4 \<and> opens (trace st') = 4 \<and> \<not> stop_event st'
            \<and> trace st' = t @ [Log StreamError, Log ExceededRetries, Log WatcherStopped]
            \<and> Log ExceededRetries \<notin> set t"
    unfolding e by (intro exI [of _ st'] exI [of _ t]) simp
  show ?thesis using 1 2 by simp
qed

lemma cfg_test_simps:
  "initial_backoff cfg_test = 1" "backoff_factor cfg_test = 2" "max_backoff cfg_test = 5"
  "max_retries cfg_test = Some 3"
  by (simp_all add: cfg_test_def)

text \<open>The configuration of the watcher test.\<close>

theorem retry_ceiling_three_witness:
  "max_retries cfg_test = Some 3 \<and> 0 \<le> initial_backoff cfg_test
   \<and> 0 \<le> backoff_factor cfg_test \<and> 0 \<le> max_backoff cfg_test
   \<and> (\<exists>st'. run cfg_test False (replicate 4 (OpenRaises DockerError)
                @ [OpenReturns [] EndOfStream]) = (Stopped, st')
         \<and> retries st' = 4 \<and> opens (trace st') = 4)
   \<and> (\<exists>st'. run cfg_test False (replicate 3 (OpenRaises DockerError)) = (Waiting, st')
         \<and> retries st' = 3 \<and> opens (trace st') = 3)"
proof -
  have h: "max_retries cfg_test = Some 3" "0 \<le> initial_backoff cfg_test"
    "0 \<le> backoff_factor cfg_test" "0 \<le> max_backoff cfg_test"
    by (simp_all add: cfg_test_simps)
  from retry_ceiling_three [OF h, of "[OpenReturns [] EndOfStream]"]
  show ?thesis using h by fastforce
qed

subsection \<open>Errors that are not connection errors\<close>








subsection \<open>Errors of the handler\<close>

text \<open>
  C9, as stated, fails: \<open>except Exception\<close> does not catch every exception a handler can
  raise. A handler that raises a \<open>BaseException\<close> that is not an \<open>Exception\<close>
  (\<open>SystemExit\<close>, \<open>KeyboardInterrupt\<close>) on the first event of a stream ends \<open>_run\<close> with
  that exception: the second event of the stream is never dispatched, and neither is the
  event of the stream after it.
\<close>

theorem callback_base_exception_counterexample:
  "run cfg_test False
     [OpenReturns [Yield (PStr ''bad'') (Raises BaseOnly), Yield (PStr ''next'') Returns]
        EndOfStream,
      OpenReturns [Yield (PStr ''later'') Returns] EndOfStream]
   = (Raised BaseOnly,
      \<lparr>retries = 0, backoff = 1, stop_event = False,
       trace = [Log OpeningStream, OpenStream, Callback (PStr ''bad'')]\<rparr>)"
  by (simp add: run_def cfg_test_def attempt_def handle_def reset_def emit_def Let_def)

lemma attempt_callback_base_exception:
  assumes "quiet pre" and "\<not> stop_event st"
  shows "attempt cfg st (OpenReturns (pre @ Yield ev (Raises BaseOnly) # post) fin)
     = (Propagate BaseOnly, st\<lparr>retries := 0, backoff := initial_backoff cfg,
          trace := trace st @ [Log OpeningStream, OpenStream] @ dispatched pre @ [Callback ev]\<rparr>)"
proof -
  let ?st1 = "reset cfg (emit [Log OpeningStream, OpenStream] st)"
  have s1: "\<not> stop_event ?st1" using assms(2) by (simp add: reset_def emit_def)
  have s2: "\<not> stop_event (emit (dispatched pre) ?st1)"
    using assms(2) by (simp add: reset_def emit_def)
  have "consume ?st1 (pre @ Yield ev (Raises BaseOnly) # post) fin
      = consume (emit (dispatched pre) ?st1) (Yield ev (Raises BaseOnly) # post) fin"
    by (rule consume_append_quiet [OF assms(1) s1])
  also have "\<dots> = (ForRaise BaseOnly, emit [Callback ev] (emit (dispatched pre) ?st1))"
    using s2 by simp
  finally show ?thesis
    by (simp add: attempt_def Let_def handle_def) (simp add: reset_def emit_def)
qed

text \<open>
  C9, amended. In any pass of a running loop, while the stream is being read and no stop
  has been asked for: a handler that raises an exception derived from \<open>Exception\<close> on an
  event is logged and nothing else happens; the event yielded immediately after it is
  dispatched to the handler as well, whatever the handler does with that one, whatever
  the stream yields afterwards, however the stream ends and whatever the later connection
  attempts bring. A handler that raises an exception not derived from \<open>Exception\<close> is not
  caught: \<open>_run\<close> ends with that exception, no log entry is written and no further event
  is dispatched.
\<close>

theorem callback_exception_isolated:
  assumes "quiet pre" and "\<not> stop_event st"
  shows "(e \<noteq> BaseOnly \<longrightarrow>
           (\<exists>t. trace (snd (while_loop cfg st
                    (OpenReturns (pre @ Yield ev (Raises e) # Yield ev' cb # post) fin # es)))
              = trace st @ [Log OpeningStream, OpenStream] @ dispatched pre
                @ [Callback ev, Log CallbackError, Callback ev'] @ t))
     \<and> while_loop cfg st (OpenReturns (pre @ Yield ev (Raises BaseOnly) # post) fin # es)
         = (Raised BaseOnly, st\<lparr>retries := 0, backoff := initial_backoff cfg,
              trace := trace st @ [Log OpeningStream, OpenStream] @ dispatched pre
                       @ [Callback ev]\<rparr>)"
proof -
  have 1: "\<exists>t. trace (snd (while_loop cfg st
                    (OpenReturns (pre @ Yield ev (Raises e) # Yield ev' cb # post) fin # es)))
              = trace st @ [Log OpeningStream, OpenStream] @ dispatched pre
                @ [Callback ev, Log CallbackError, Callback ev'] @ t" if e: "e \<noteq> BaseOnly"
  proof -
    let ?items = "pre @ Yield ev (Raises e) # Yield ev' cb # post"
    let ?st1 = "reset cfg (emit [Log OpeningStream, OpenStream] st)"
    let ?st2 = "emit (dispatched pre) ?st1"
    let ?st3 = "emit [Callback ev, Log CallbackError] ?st2"
    have s1: "\<not> stop_event ?st1" using assms(2) by (simp add: reset_def emit_def)
    have s2: "\<not> stop_event ?st2" using assms(2) by (simp add: reset_def emit_def)
    have s3: "\<not> stop_event ?st3" using assms(2) by (simp add: reset_def emit_def)
    have "consume ?st1 ?items fin = consume ?st2 (Yield ev (Raises e) # Yield ev' cb # post) fin"
      by (rule consume_append_quiet [OF assms(1) s1])
    also have "\<dots> = consume ?st3 (Yield ev' cb # post) fin"
      using s2 e by (cases e) simp_all
    finally have c: "consume ?st1 ?items fin = consume ?st3 (Yield ev' cb # post) fin" .
    have t3: "trace ?st3 @ [Callback ev'] = trace st @ [Log OpeningStream, OpenStream]
         @ dispatched pre @ [Callback ev, Log CallbackError, Callback ev']"
      by (simp add: reset_def emit_def)
    have "prefix (trace ?st3 @ [Callback ev']) (trace (snd (consume ?st1 ?items fin)))"
      unfolding c by (rule consume_yield_prefix [OF s3])
    also have "prefix \<dots> (trace (snd (attempt cfg st (OpenReturns ?items fin))))"
      by (rule attempt_consume_prefix)
    also have "prefix \<dots> (trace (snd (while_loop cfg st (OpenReturns ?items fin # es))))"
      by (rule while_loop_attempt_prefix [OF assms(2)]) simp
    finally have "prefix (trace st @ [Log OpeningStream, OpenStream] @ dispatched pre
         @ [Callback ev, Log CallbackError, Callback ev'])
       (trace (snd (while_loop cfg st (OpenReturns ?items fin # es))))"
      unfolding t3 .
    then show ?thesis
      unfolding prefix_def by (metis append.assoc)
  qed
  have 2: "while_loop cfg st (OpenReturns (pre @ Yield ev (Raises BaseOnly) # post) fin # es)
         = (Raised BaseOnly, st\<lparr>retries := 0, backoff := initial_backoff cfg,
              trace := trace st @ [Log OpeningStream, OpenStream] @ dispatched pre
                       @ [Callback ev]\<rparr>)"
    using assms(2) attempt_callback_base_exception [OF assms, of cfg ev post fin] by simp
  show ?thesis using 1 2 by blast
qed

text \<open>Three events, the handler failing on the second.\<close>

theorem callback_exception_isolated_witness:
  "quiet [Yield (PStr ''a'') Returns] \<and> \<not> stop_event (init_state cfg_test)
   \<and> OtherException \<noteq> BaseOnly
   \<and> (\<exists>t. trace (snd (run cfg_test False
          [OpenReturns [Yield (PStr ''a'') Returns, Yield (PStr ''bad'') (Raises OtherException),
             Yield (PStr ''next'') Returns] EndOfStream]))
        = [Log OpeningStream, OpenStream, Callback (PStr ''a''), Callback (PStr ''bad''),
           Log CallbackError, Callback (PStr ''next'')] @ t)
   \<and> run cfg_test False
          [OpenReturns [Yield (PStr ''a'') Returns, Yield (PStr ''bad'') (Raises BaseOnly),
             Yield (PStr ''next'') Returns] EndOfStream]
        = (Raised BaseOnly, \<lparr>retries = 0, backoff = 1, stop_event = False,
             trace = [Log OpeningStream, OpenStream, Callback (PStr ''a''),
               Callback (PStr ''bad'')]\<rparr>)"
proof -
  have h: "quiet [Yield (PStr ''a'') Returns]" "\<not> stop_event (init_state cfg_test)"
    by (simp_all add: init_state_def)
  have n: "OtherException \<noteq> BaseOnly" by simp
  note t = callback_exception_isolated [OF h, where cfg = cfg_test and e = OtherException
      and ev = "PStr ''bad''" and ev' = "PStr ''next''" and cb = Returns and post = "[]"
      and fin = EndOfStream and es = "[]"]
  note u = callback_exception_isolated [OF h, where cfg = cfg_test and e = OtherException
      and ev = "PStr ''bad''" and ev' = "PStr ''next''" and cb = Returns
      and post = "[Yield (PStr ''next'') Returns]" and fin = EndOfStream and es = "[]"]
  have 1: "\<exists>t. trace (snd (run cfg_test False
          [OpenReturns [Yield (PStr ''a'') Returns, Yield (PStr ''bad'') (Raises OtherException),
             Yield (PStr ''next'') Returns] EndOfStream]))
        = [Log OpeningStream, OpenStream, Callback (PStr ''a''), Callback (PStr ''bad''),
           Log CallbackError, Callback (PStr ''next'')] @ t"
    using t n by (simp add: run_False init_state_def)
  have 2: "run cfg_test False
          [OpenReturns [Yield (PStr ''a'') Returns, Yield (PStr ''bad'') (Raises BaseOnly),
             Yield (PStr ''next'') Returns] EndOfStream]
        = (Raised BaseOnly, \<lparr>retries = 0, backoff = 1, stop_event = False,
             trace = [Log OpeningStream, OpenStream, Callback (PStr ''a''),
               Callback (PStr ''bad'')]\<rparr>)"
    using u by (simp add: run_False init_state_def cfg_test_def)
  show ?thesis using h n 1 2 by (intro conjI)
qed

subsection \<open>A stopped watcher\<close>

lemma run_stopped:
  "run cfg True script =
     (Stopped, \<lparr>retries = 0, backoff = initial_backoff cfg, stop_event = True,
        trace = [Log WatcherStopped]\<rparr>)"
  by (simp add: run_def while_loop_stopped emit_def)

lemma apply_op_stopped:
  assumes "w_stop w"
  shows "w_stop (apply_op w op) \<and> opens (w_trace (apply_op w op)) = opens (w_trace w)
     \<and> callbacks (w_trace (apply_op w op)) = callbacks (w_trace w)"
  using assms
  by (cases op)
     (auto simp: stop_def start_in_background_def start_forever_def run_stopped Let_def
        opens_append callbacks_append)

lemma apply_ops_stopped:
  assumes "w_stop w"
  shows "w_stop (foldl apply_op w ops) \<and> opens (w_trace (foldl apply_op w ops)) = opens (w_trace w)
     \<and> callbacks (w_trace (foldl apply_op w ops)) = callbacks (w_trace w)"
  using assms
proof (induction ops arbitrary: w)
  case Nil
  then show ?case by simp
next
  case (Cons op ops)
  from apply_op_stopped [OF Cons.prems, of op] Cons.IH [of "apply_op w op"]
  show ?case by simp
qed

lemma stop_sets_flag:
  "w_stop (stop joined w) \<and> opens (w_trace (stop joined w)) = opens (w_trace w)
     \<and> callbacks (w_trace (stop joined w)) = callbacks (w_trace w)"
  by (simp add: stop_def Let_def opens_append callbacks_append)

text \<open>
  C10. A watcher is single-use. \<open>stop\<close> sets the stop flag, and no sequence of operations
  of the watcher (\<open>stop\<close>, \<open>start_in_background\<close>, \<open>start_forever\<close>, on any scripts)
  clears it again; through all of them the event stream is never opened and the handler
  never called. A loop started with the flag set sees it at its first test and only logs
  that the watcher has stopped. \<open>start_forever\<close> on a stopped watcher returns at once;
  \<open>start_in_background\<close> starts a worker that ends at once, or, when the earlier worker
  is still alive, only logs a warning and starts nothing.
\<close>

theorem stopped_watcher_is_single_use:
  "w_stop (stop joined w)
   \<and> w_stop (foldl apply_op (stop joined w) ops)
   \<and> opens (w_trace (foldl apply_op (stop joined w) ops)) = opens (w_trace w)
   \<and> callbacks (w_trace (foldl apply_op (stop joined w) ops)) = callbacks (w_trace w)
   \<and> run cfg True script =
        (Stopped, \<lparr>retries = 0, backoff = initial_backoff cfg, stop_event = True,
           trace = [Log WatcherStopped]\<rparr>)
   \<and> start_forever (stop joined w) script =
        (Stopped, (stop joined w)
           \<lparr>w_trace := w_trace (stop joined w) @ [Log StartingForeground, Log WatcherStopped]\<rparr>)
   \<and> start_in_background (stop joined w) script =
        (if w_worker (stop joined w) = Alive
         then (stop joined w)\<lparr>w_trace := w_trace (stop joined w) @ [Log AlreadyRunning]\<rparr>
         else (stop joined w)
           \<lparr>w_worker := Ended,
            w_trace := w_trace (stop joined w) @ [Log WatcherStopped, Log StartedInBackground]\<rparr>)"
proof -
  have s: "w_stop (stop joined w)" using stop_sets_flag by simp
  have 1: "w_stop (foldl apply_op (stop joined w) ops)
     \<and> opens (w_trace (foldl apply_op (stop joined w) ops)) = opens (w_trace w)
     \<and> callbacks (w_trace (foldl apply_op (stop joined w) ops)) = callbacks (w_trace w)"
    using apply_ops_stopped [OF s, of ops] stop_sets_flag [of joined w] by simp
  have 2: "start_forever (stop joined w) script =
        (Stopped, (stop joined w)
           \<lparr>w_trace := w_trace (stop joined w) @ [Log StartingForeground, Log WatcherStopped]\<rparr>)"
    using s by (simp add: start_forever_def run_stopped)
  have 3: "start_in_background (stop joined w) script =
        (if w_worker (stop joined w) = Alive
         then (stop joined w)\<lparr>w_trace := w_trace (stop joined w) @ [Log AlreadyRunning]\<rparr>
         else (stop joined w)
           \<lparr>w_worker := Ended,
            w_trace := w_trace (stop joined w) @ [Log WatcherStopped, Log StartedInBackground]\<rparr>)"
    using s by (simp add: start_in_background_def run_stopped)
  show ?thesis using s 1 2 3 run_stopped [of cfg script] by simp
qed

end
